theory Spec2Isabelle
  imports Main "HOL-Library.Word" "HOL-Library.Sublist"
begin

section \<open>Bytes, exceptions and the Python primitives the script uses\<close>

text \<open>
  The script \<^verbatim>\<open>patch.py\<close> works on a \<^verbatim>\<open>bytearray\<close> (the game image) and a
  \<^verbatim>\<open>bytes\<close> object (the assembled patch). Both are lists of 8-bit words here. Python
  integers are unbounded: offsets and lengths that cannot be negative are \<open>nat\<close>,
  values that go through a subtraction are \<open>int\<close>.
\<close>

type_synonym byte = "8 word"

text \<open>
  The exceptions the script can raise, as values: \<^verbatim>\<open>ValueError\<close> with its message
  (raised by \<^verbatim>\<open>find_pattern\<close>, \<^verbatim>\<open>find_pattern_all\<close>, the version check and a
  \<^verbatim>\<open>bytearray\<close> store of 256), \<^verbatim>\<open>struct.error\<close>, \<^verbatim>\<open>IndexError\<close>,
  \<^verbatim>\<open>subprocess.CalledProcessError\<close>, \<^verbatim>\<open>OSError\<close>, and the two a codec raises,
  \<^verbatim>\<open>LookupError\<close> and \<^verbatim>\<open>UnicodeEncodeError\<close>.
\<close>

datatype error =
    ValueError string
  | StructError
  | IndexError
  | CalledProcessError
  | OSError
  | LookupError
  | UnicodeEncodeError

subsection \<open>Formatting a pattern in hexadecimal\<close>

text \<open>\<^verbatim>\<open>" ".join(f"{b:02x}" for b in pattern)\<close>\<close>

definition hex_digit :: "nat \<Rightarrow> char" where
  "hex_digit d = ''0123456789abcdef'' ! d"

definition hex_byte :: "byte \<Rightarrow> string" where
  "hex_byte b = [hex_digit (unat b div 16), hex_digit (unat b mod 16)]"

fun join_space :: "string list \<Rightarrow> string" where
  "join_space [] = []"
| "join_space [s] = s"
| "join_space (s # t # ss) = s @ '' '' @ join_space (t # ss)"

definition hex_pattern :: "byte list \<Rightarrow> string" where
  "hex_pattern pattern = join_space (map hex_byte pattern)"

text \<open>
  \<^verbatim>\<open>ValueError(f"Could not find pattern: [{hex_pattern}] in input file")\<close>: the
  error the specification calls \<open>PatternNotFound\<close>.
\<close>

definition pattern_not_found :: "byte list \<Rightarrow> error" where
  "pattern_not_found pattern =
     ValueError (''Could not find pattern: ['' @ hex_pattern pattern @ ''] in input file'')"

subsection \<open>\<^verbatim>\<open>bytes.find\<close>\<close>

text \<open>
  \<open>occurs_at data sub i\<close>: the slice \<^verbatim>\<open>data[i:i+len(sub)]\<close> lies inside
  \<open>data\<close> and equals \<open>sub\<close>.
\<close>

definition occurs_at :: "'a list \<Rightarrow> 'a list \<Rightarrow> nat \<Rightarrow> bool" where
  "occurs_at data sub i \<longleftrightarrow>
     i + length sub \<le> length data \<and> take (length sub) (drop i data) = sub"

text \<open>
  \<open>find_first sub xs\<close> is the lowest index at which \<open>sub\<close> occurs in \<open>xs\<close>.
  \<^verbatim>\<open>data.find(sub, start)\<close> is the lowest index not below \<open>start\<close>, or \<open>-1\<close>
  (here \<open>None\<close>); a start beyond the end finds nothing, also for an empty \<open>sub\<close>.
\<close>

fun find_first :: "'a list \<Rightarrow> 'a list \<Rightarrow> nat option" where
  "find_first sub [] = (if sub = [] then Some 0 else None)"
| "find_first sub (x # xs) =
     (if prefix sub (x # xs) then Some 0 else map_option Suc (find_first sub xs))"

definition bytes_find :: "byte list \<Rightarrow> byte list \<Rightarrow> nat \<Rightarrow> nat option" where
  "bytes_find data sub start =
     (if length data < start then None
      else map_option (\<lambda>i. start + i) (find_first sub (drop start data)))"

subsection \<open>Slices and \<^verbatim>\<open>struct\<close>\<close>

text \<open>
  \<^verbatim>\<open>xs[i:j]\<close> for Python integers \<open>i\<close>, \<open>j\<close>: a negative index counts from
  the end, and both are clipped to the list.
\<close>

definition py_slice :: "'a list \<Rightarrow> int \<Rightarrow> int \<Rightarrow> 'a list" where
  "py_slice xs i j =
     (let n = int (length xs);
          lo = (if i < 0 then max 0 (i + n) else min i n);
          hi = (if j < 0 then max 0 (j + n) else min j n)
      in take (nat (hi - lo)) (drop (nat lo) xs))"

text \<open>
  \<^verbatim>\<open>xs[lo:hi] = new\<close> on a \<^verbatim>\<open>bytearray\<close>, for indices that are not negative:
  the slice is clipped to the list and replaced, whatever the length of \<open>new\<close>.
\<close>

definition slice_assign :: "'a list \<Rightarrow> nat \<Rightarrow> nat \<Rightarrow> 'a list \<Rightarrow> 'a list" where
  "slice_assign xs lo hi new = take lo xs @ new @ drop (max lo hi) xs"

text \<open>
  \<^verbatim>\<open>struct.pack("<H", v)\<close>: two bytes, low byte first; \<^verbatim>\<open>struct.error\<close> unless
  \<open>0 \<le> v \<le> 65535\<close>. \<^verbatim>\<open>struct.unpack("<H", bs)\<close> wants exactly two bytes.
\<close>

definition pack_H :: "int \<Rightarrow> error + byte list" where
  "pack_H v =
     (if v < 0 \<or> 65535 < v then Inl StructError
      else Inr [word_of_int (v mod 256), word_of_int (v div 256)])"

definition unpack_H :: "byte list \<Rightarrow> error + nat" where
  "unpack_H bs =
     (case bs of
        [lo, hi] \<Rightarrow> Inr (unat lo + 256 * unat hi)
      | _ \<Rightarrow> Inl StructError)"

section \<open>The functions of \<^verbatim>\<open>patch.py\<close>\<close>

subsection \<open>\<^verbatim>\<open>read_le_word\<close>, \<^verbatim>\<open>write_le_word\<close> (lines 41-46)\<close>

definition read_le_word :: "byte list \<Rightarrow> int \<Rightarrow> error + nat" where
  "read_le_word data offset = unpack_H (py_slice data offset (offset + 2))"

text \<open>
  \<^verbatim>\<open>struct.pack_into("<H", data, offset, v)\<close> raises \<^verbatim>\<open>struct.error\<close> when the
  value does not fit or the two bytes do not lie inside the buffer. The script only
  calls it with the constant offset \<open>0x2BBF\<close>.
\<close>

definition write_le_word :: "byte list \<Rightarrow> nat \<Rightarrow> int \<Rightarrow> error + byte list" where
  "write_le_word data offset v =
     (case pack_H v of
        Inl e \<Rightarrow> Inl e
      | Inr packed \<Rightarrow>
          if length data < offset + 2 then Inl StructError
          else Inr (data[offset := packed ! 0, offset + 1 := packed ! 1]))"

subsection \<open>\<^verbatim>\<open>find_pattern\<close> (lines 49-54)\<close>

definition find_pattern :: "byte list \<Rightarrow> byte list \<Rightarrow> error + nat" where
  "find_pattern data pattern =
     (case bytes_find data pattern 0 of
        None \<Rightarrow> Inl (pattern_not_found pattern)
      | Some loc \<Rightarrow> Inr loc)"

subsection \<open>\<^verbatim>\<open>find_pattern_all\<close> (lines 57-69)\<close>

lemma find_first_bounds:
  "find_first sub xs = Some i \<Longrightarrow> i \<le> length xs"
  by (induction xs arbitrary: i) (auto split: if_splits)

lemma bytes_find_bounds:
  "bytes_find data sub start = Some p \<Longrightarrow> start \<le> p \<and> p \<le> length data"
  by (auto simp: bytes_find_def split: if_splits dest!: find_first_bounds)

text \<open>
  The \<^verbatim>\<open>while True\<close> loop: search from \<open>pos\<close>, stop at \<open>-1\<close>, otherwise record the
  position and go on one byte further.
\<close>

function find_loop :: "byte list \<Rightarrow> byte list \<Rightarrow> nat \<Rightarrow> nat list \<Rightarrow> nat list" where
  "find_loop data pattern pos results =
     (case bytes_find data pattern pos of
        None \<Rightarrow> results
      | Some p \<Rightarrow> find_loop data pattern (p + 1) (results @ [p]))"
  by pat_completeness auto
termination
  by (relation "measure (\<lambda>(data, pattern, pos, results). Suc (length data) - pos)")
    (auto dest!: bytes_find_bounds)

definition find_pattern_all :: "byte list \<Rightarrow> byte list \<Rightarrow> error + nat list" where
  "find_pattern_all data pattern =
     (let results = find_loop data pattern 0 []
      in if results = [] then Inl (pattern_not_found pattern) else Inr results)"

subsection \<open>\<^verbatim>\<open>patch_call\<close> (lines 72-75)\<close>

text \<open>
  \<open>sz\<close> is the source's \<^verbatim>\<open>size\<close>. \<^verbatim>\<open>b"\x90" * (size - 3)\<close> is empty for a size
  below 3, as \<open>replicate\<close> of the truncated difference is.
\<close>

definition patch_call :: "byte list \<Rightarrow> nat \<Rightarrow> nat \<Rightarrow> nat \<Rightarrow> error + byte list" where
  "patch_call game_data patch_location sz call_address =
     (let offset = int call_address - (int patch_location + 3)
      in case pack_H offset of
           Inl e \<Rightarrow> Inl e
         | Inr packed \<Rightarrow>
             Inr (slice_assign game_data patch_location (patch_location + sz)
                    ([0xE8] @ packed @ replicate (sz - 3) 0x90)))"

subsection \<open>\<^verbatim>\<open>patch_version_box\<close> (lines 26-38)\<close>

text \<open>
  \<^verbatim>\<open>f"\xb3{line1:<14}\xb3"\<close>: the line, padded with blanks on the right to 14
  characters (a longer line is not cut), between two characters \<open>U+00B3\<close>.
\<close>

definition ljust :: "nat \<Rightarrow> string \<Rightarrow> string" where
  "ljust n s = s @ replicate (n - length s) CHR '' ''"

definition box_row :: "string \<Rightarrow> string" where
  "box_row line = [CHR 0xB3] @ ljust 14 line @ [CHR 0xB3]"

text \<open>
  \<^verbatim>\<open>.encode("ansi")\<close>: the codec \<^verbatim>\<open>ansi\<close> is the ANSI code page of the Windows
  machine the script runs on. Python knows no such codec elsewhere (\<^verbatim>\<open>LookupError\<close>),
  a code page may lack a character (\<^verbatim>\<open>UnicodeEncodeError\<close>) or give it more than
  one byte. The script does not choose it, so it is a parameter of the run: a function
  from the string to its bytes, or to the exception. The strings the script encodes hold
  ASCII characters and \<open>U+00B3\<close> only, which the 8-bit characters of \<open>string\<close>
  cover.
\<close>

type_synonym codec = "string \<Rightarrow> error + byte list"

text \<open>
  The four slice assignments, in the order of the source; each row is encoded just
  before it is assigned, so an exception of the codec leaves the later rows unwritten.
\<close>

definition patch_version_box ::
  "codec \<Rightarrow> byte list \<Rightarrow> nat \<Rightarrow> nat \<Rightarrow> nat \<Rightarrow> nat \<Rightarrow> string \<Rightarrow> string \<Rightarrow>
     error + byte list" where
  "patch_version_box ansi game_data addr_top addr_line1 addr_line2 addr_bottom line1 line2 =
     (let g1 = slice_assign game_data addr_top (addr_top + 16)
                 ([0xDA] @ replicate 14 0xC4 @ [0xBF])
      in case ansi (box_row line1) of
           Inl e \<Rightarrow> Inl e
         | Inr row1 \<Rightarrow>
             (let g2 = slice_assign g1 addr_line1 (addr_line1 + 16) row1
              in case ansi (box_row line2) of
                   Inl e \<Rightarrow> Inl e
                 | Inr row2 \<Rightarrow>
                     (let g3 = slice_assign g2 addr_line2 (addr_line2 + 16) row2
                      in Inr (slice_assign g3 addr_bottom (addr_bottom + 16)
                                ([0xC0] @ replicate 14 0xC4 @ [0xD9])))))"

subsection \<open>\<^verbatim>\<open>patch_game\<close> (lines 78-172)\<close>

text \<open>The constants and the byte patterns (lines 80-97).\<close>

definition ADDR_LAST_SCANCODE :: nat where
  "ADDR_LAST_SCANCODE = 0x0F9E"

definition ADDR_COM_LOAD :: nat where
  "ADDR_COM_LOAD = 0x100"

definition DS_LOCATION :: nat where
  "DS_LOCATION = 0x2BBF"

text \<open>\<^verbatim>\<open>struct.pack("<H", ADDR_LAST_SCANCODE)\<close>\<close>

definition addr_bytes :: "byte list" where
  "addr_bytes = [0x9E, 0x0F]"

definition pattern_init_scancode :: "byte list" where
  "pattern_init_scancode = [0xA3] @ addr_bytes"

definition pattern_write_scancode :: "byte list" where
  "pattern_write_scancode = [0x89, 0x1E] @ addr_bytes"

definition pattern_read_scancode :: "byte list" where
  "pattern_read_scancode = [0xA1] @ addr_bytes"

definition pattern_round_message :: "byte list" where
  "pattern_round_message = [0xE9, 0xA7, 0x01, 0xB9, 0x08, 0x00]"

definition pattern_read_up_flag :: "byte list" where
  "pattern_read_up_flag = [0xA0, 0x66, 0x0C]"

definition pattern_key_handler :: "byte list" where
  "pattern_key_handler = [0x55, 0x8B, 0xEC, 0x55, 0xE9, 0x00, 0x00] @ pattern_read_scancode"

lemmas pattern_defs =
  pattern_key_handler_def pattern_init_scancode_def pattern_write_scancode_def
  pattern_read_scancode_def pattern_round_message_def pattern_read_up_flag_def addr_bytes_def

text \<open>
  The outside world of a run, besides the codec: the file \<^verbatim>\<open>ROUND42.COM\<close> of the input directory
  (\<open>None\<close> when it cannot be read) and the one of the output directory (\<open>None\<close>
  while there is none), taken to be two files. The assembler is a function of its two
  parameters \<^verbatim>\<open>GAME_SIZE\<close> and \<^verbatim>\<open>GAME_KEY_HANDLER\<close>: it fails
  (\<^verbatim>\<open>check=True\<close> raises), or \<^verbatim>\<open>patch.bin\<close> cannot be read, or it is read.
\<close>

record world =
  input_file :: "byte list option"
  output_file :: "byte list option"

datatype build_result = BuildFailed | BlobUnreadable | Blob "byte list"

type_synonym builder = "nat \<Rightarrow> nat \<Rightarrow> build_result"

text \<open>Add/update version box (lines 121-131).\<close>

definition add_version_box :: "codec \<Rightarrow> nat \<Rightarrow> byte list \<Rightarrow> error + byte list" where
  "add_version_box ansi game_size game_data =
     (if game_size = 0xEC00 then
        patch_version_box ansi game_data 0xE5A2 0xE5F1 0xE640 0xE68F
          ''Round 42 v1.0'' ''Keyboard fix 1''
      else if game_size = 0xF382 then
        patch_version_box ansi game_data 0xED21 0xED44 0xED93 0xEDE2
          ''Round-42 v2.0'' ''Keyboard fix 1''
      else Inl (ValueError ''Unknown game version''))"

text \<open>Get patch output data (lines 133-138): the five words that end the patch.\<close>

record footer =
  vars_size :: nat
  addr_reset_buffer :: nat
  addr_put_scancode :: nat
  addr_get_scancode :: nat
  addr_on_round_start :: nat

definition read_footer :: "byte list \<Rightarrow> error + footer" where
  "read_footer patch_data =
     (let n = int (length patch_data) in
      case read_le_word patch_data (n - 10) of Inl e \<Rightarrow> Inl e | Inr vs \<Rightarrow>
      case read_le_word patch_data (n - 8) of Inl e \<Rightarrow> Inl e | Inr rb \<Rightarrow>
      case read_le_word patch_data (n - 6) of Inl e \<Rightarrow> Inl e | Inr ps \<Rightarrow>
      case read_le_word patch_data (n - 4) of Inl e \<Rightarrow> Inl e | Inr gs \<Rightarrow>
      case read_le_word patch_data (n - 2) of Inl e \<Rightarrow> Inl e | Inr rs \<Rightarrow>
        Inr \<lparr>vars_size = vs, addr_reset_buffer = rb, addr_put_scancode = ps,
             addr_get_scancode = gs, addr_on_round_start = rs\<rparr>)"

text \<open>Get and update data segment (DS) value (lines 140-146).\<close>

definition end_of_code :: "byte list \<Rightarrow> byte list \<Rightarrow> nat \<Rightarrow> int" where
  "end_of_code game_data patch_data vsize =
     int ADDR_COM_LOAD + int (length game_data) + int (length patch_data) + int vsize"

definition overlap :: "int \<Rightarrow> nat \<Rightarrow> int" where
  "overlap eoc ds_value = max 0 (eoc - int ds_value * 0x10)"

definition new_ds_value :: "int \<Rightarrow> nat \<Rightarrow> int" where
  "new_ds_value eoc ds_value = int ds_value + (overlap eoc ds_value + 0xF) div 0x10"

definition update_ds :: "byte list \<Rightarrow> byte list \<Rightarrow> nat \<Rightarrow> error + byte list" where
  "update_ds game_data patch_data vsize =
     (case read_le_word game_data (int DS_LOCATION) of
        Inl e \<Rightarrow> Inl e
      | Inr ds_value \<Rightarrow>
          write_le_word game_data DS_LOCATION
            (new_ds_value (end_of_code game_data patch_data vsize) ds_value))"

text \<open>Replace code with "call reset_buffer" (lines 148-150).\<close>

definition call_reset_buffer :: "byte list \<Rightarrow> nat \<Rightarrow> error + byte list" where
  "call_reset_buffer game_data addr =
     (case find_pattern game_data pattern_init_scancode of
        Inl e \<Rightarrow> Inl e
      | Inr loc \<Rightarrow> patch_call game_data loc 3 addr)"

text \<open>Replace code with "call put_scancode" (lines 152-154).\<close>

definition call_put_scancode :: "byte list \<Rightarrow> nat \<Rightarrow> error + byte list" where
  "call_put_scancode game_data addr =
     (case find_pattern game_data pattern_write_scancode of
        Inl e \<Rightarrow> Inl e
      | Inr loc \<Rightarrow> patch_call game_data loc 4 addr)"

text \<open>
  Replace code with "call get_scancode" (lines 156-158): the list of locations is
  computed once, then every location is patched in turn.
\<close>

fun patch_calls :: "byte list \<Rightarrow> nat list \<Rightarrow> nat \<Rightarrow> error + byte list" where
  "patch_calls game_data [] addr = Inr game_data"
| "patch_calls game_data (loc # locs) addr =
     (case patch_call game_data loc 3 addr of
        Inl e \<Rightarrow> Inl e
      | Inr g \<Rightarrow> patch_calls g locs addr)"

definition call_get_scancode :: "byte list \<Rightarrow> nat \<Rightarrow> error + byte list" where
  "call_get_scancode game_data addr =
     (case find_pattern_all game_data pattern_read_scancode of
        Inl e \<Rightarrow> Inl e
      | Inr locs \<Rightarrow> patch_calls game_data locs addr)"

text \<open>Replace code with "call on_round_start" (lines 160-162), after the jump.\<close>

definition call_on_round_start :: "byte list \<Rightarrow> nat \<Rightarrow> error + byte list" where
  "call_on_round_start game_data addr =
     (case find_pattern game_data pattern_round_message of
        Inl e \<Rightarrow> Inl e
      | Inr loc \<Rightarrow> patch_call game_data (loc + 3) 3 addr)"

text \<open>
  Replace xPos with yPos (lines 164-166). \<^verbatim>\<open>game_data[loc + 7] += 1\<close> reads the
  byte (\<^verbatim>\<open>IndexError\<close> beyond the end) and stores it plus one (\<^verbatim>\<open>ValueError\<close>
  for 256).
\<close>

definition fix_up_flag :: "byte list \<Rightarrow> error + byte list" where
  "fix_up_flag game_data =
     (case find_pattern game_data pattern_read_up_flag of
        Inl e \<Rightarrow> Inl e
      | Inr loc \<Rightarrow>
          if length game_data \<le> loc + 7 then Inl IndexError
          else if game_data ! (loc + 7) = 0xFF
            then Inl (ValueError ''byte must be in range(0, 256)'')
          else Inr (game_data[loc + 7 := game_data ! (loc + 7) + 1]))"

text \<open>
  Lines 121-166: what the script does to the image once it has the patch, in the order
  of the source.
\<close>

definition patch_image :: "codec \<Rightarrow> byte list \<Rightarrow> byte list \<Rightarrow> error + byte list" where
  "patch_image ansi game_data patch_data =
     (case add_version_box ansi (length game_data) game_data of Inl e \<Rightarrow> Inl e | Inr g1 \<Rightarrow>
      case read_footer patch_data of Inl e \<Rightarrow> Inl e | Inr ftr \<Rightarrow>
      case update_ds g1 patch_data (vars_size ftr) of Inl e \<Rightarrow> Inl e | Inr g2 \<Rightarrow>
      case call_reset_buffer g2 (addr_reset_buffer ftr) of Inl e \<Rightarrow> Inl e | Inr g3 \<Rightarrow>
      case call_put_scancode g3 (addr_put_scancode ftr) of Inl e \<Rightarrow> Inl e | Inr g4 \<Rightarrow>
      case call_get_scancode g4 (addr_get_scancode ftr) of Inl e \<Rightarrow> Inl e | Inr g5 \<Rightarrow>
      case call_on_round_start g5 (addr_on_round_start ftr) of Inl e \<Rightarrow> Inl e | Inr g6 \<Rightarrow>
        fix_up_flag g6)"

text \<open>
  The whole run: read the image (lines 84-87), find the key handler (line 100), run the
  assembler and read its output (lines 102-119), patch the image (lines 121-166) and
  write the image and the patch to the output file (lines 168-172). An exception ends
  the run where it is raised.
\<close>

definition patch_game :: "builder \<Rightarrow> codec \<Rightarrow> world \<Rightarrow> error option \<times> world" where
  "patch_game nasm ansi w =
     (case input_file w of
        None \<Rightarrow> (Some OSError, w)
      | Some game_data \<Rightarrow>
          (case find_pattern game_data pattern_key_handler of
             Inl e \<Rightarrow> (Some e, w)
           | Inr loc \<Rightarrow>
               (case nasm (length game_data) (loc + ADDR_COM_LOAD) of
                  BuildFailed \<Rightarrow> (Some CalledProcessError, w)
                | BlobUnreadable \<Rightarrow> (Some OSError, w)
                | Blob patch_data \<Rightarrow>
                    (case patch_image ansi game_data patch_data of
                       Inl e \<Rightarrow> (Some e, w)
                     | Inr g \<Rightarrow> (None, w\<lparr>output_file := Some (g @ patch_data)\<rparr>)))))"

lemma pack_addr_bytes: "pack_H (int ADDR_LAST_SCANCODE) = Inr addr_bytes"
  by (simp add: pack_H_def ADDR_LAST_SCANCODE_def addr_bytes_def)

section \<open>Notions for the statements\<close>

text \<open>
  The hexadecimal representation of a byte string, as the diagnostic of a missing pattern
  is to carry it: for each byte two lower-case hexadecimal digits, the high one first,
  and one blank between two bytes. It is stated on the characters of the string, without
  the formatting function of the code.
\<close>

definition hex_char :: "nat \<Rightarrow> char" where
  "hex_char n = (if n < 10 then ''0123456789'' ! n else ''abcdef'' ! (n - 10))"

definition is_hex_of :: "string \<Rightarrow> byte list \<Rightarrow> bool" where
  "is_hex_of h bs \<longleftrightarrow>
     length h = 3 * length bs - 1 \<and>
     (\<forall>i<length bs. h ! (3 * i) = hex_char (unat (bs ! i) div 16) \<and>
        h ! (3 * i + 1) = hex_char (unat (bs ! i) mod 16)) \<and>
     (\<forall>i. i + 1 < length bs \<longrightarrow> h ! (3 * i + 2) = CHR '' '')"

text \<open>The 16-bit word at an offset of a byte string, low byte first.\<close>

definition le_word :: "byte list \<Rightarrow> nat \<Rightarrow> nat" where
  "le_word data i = unat (data ! i) + 256 * unat (data ! (i + 1))"

text \<open>
  What the processor reads back from a near call: the two bytes after the opcode as a
  signed 16-bit displacement, low byte first.
\<close>

definition decode_int16 :: "byte \<Rightarrow> byte \<Rightarrow> int" where
  "decode_int16 lo hi =
     (let u = uint lo + 256 * uint hi in if u < 32768 then u else u - 65536)"

text \<open>
  The list \<open>xs\<close> with the \<open>n\<close> elements from \<open>lo\<close> on replaced by \<open>new\<close>, and the
  image with the four rows of the version box replaced: the frame bytes of the source in
  the top and the bottom row, and the two caption rows as the codec has delivered them.
\<close>

definition replace_bytes :: "'a list \<Rightarrow> nat \<Rightarrow> nat \<Rightarrow> 'a list \<Rightarrow> 'a list" where
  "replace_bytes xs lo n new = take lo xs @ new @ drop (lo + n) xs"

definition box_written ::
  "byte list \<Rightarrow> nat \<Rightarrow> nat \<Rightarrow> nat \<Rightarrow> nat \<Rightarrow> byte list \<Rightarrow> byte list \<Rightarrow> byte list" where
  "box_written xs a1 a2 a3 a4 row1 row2 =
     replace_bytes
       (replace_bytes
          (replace_bytes
             (replace_bytes xs a1 16 ([0xDA] @ replicate 14 0xC4 @ [0xBF]))
             a2 16 row1)
          a3 16 row2)
       a4 16 ([0xC0] @ replicate 14 0xC4 @ [0xD9])"


text \<open>
  The images a run goes through and the places it finds: after the version box, after
  the update of the segment value, after each of the four kinds of call sites, and after
  the fix of the up flag.
\<close>

record stages =
  boxed :: "byte list"
  ftr :: footer
  ds_fixed :: "byte list"
  loc_init :: nat
  init_patched :: "byte list"
  loc_write :: nat
  write_patched :: "byte list"
  locs_read :: "nat list"
  reads_patched :: "byte list"
  loc_round :: nat
  round_patched :: "byte list"
  loc_up_flag :: nat
  up_fixed :: "byte list"

definition code_order :: "codec \<Rightarrow> byte list \<Rightarrow> byte list \<Rightarrow> stages \<Rightarrow> bool" where
  "code_order ansi img blob s \<longleftrightarrow>
     add_version_box ansi (length img) img = Inr (boxed s) \<and>
     read_footer blob = Inr (ftr s) \<and>
     update_ds (boxed s) blob (vars_size (ftr s)) = Inr (ds_fixed s) \<and>
     find_pattern (ds_fixed s) pattern_init_scancode = Inr (loc_init s) \<and>
     patch_call (ds_fixed s) (loc_init s) 3 (addr_reset_buffer (ftr s)) = Inr (init_patched s) \<and>
     find_pattern (init_patched s) pattern_write_scancode = Inr (loc_write s) \<and>
     patch_call (init_patched s) (loc_write s) 4 (addr_put_scancode (ftr s)) =
       Inr (write_patched s) \<and>
     find_pattern_all (write_patched s) pattern_read_scancode = Inr (locs_read s) \<and>
     patch_calls (write_patched s) (locs_read s) (addr_get_scancode (ftr s)) =
       Inr (reads_patched s) \<and>
     find_pattern (reads_patched s) pattern_round_message = Inr (loc_round s) \<and>
     patch_call (reads_patched s) (loc_round s + 3) 3 (addr_on_round_start (ftr s)) =
       Inr (round_patched s) \<and>
     find_pattern (round_patched s) pattern_read_up_flag = Inr (loc_up_flag s) \<and>
     loc_up_flag s + 7 < length (round_patched s) \<and>
     round_patched s ! (loc_up_flag s + 7) \<noteq> 0xFF \<and>
     up_fixed s =
       (round_patched s)[loc_up_flag s + 7 := round_patched s ! (loc_up_flag s + 7) + 1]"







text \<open>
  The order the specification gives in its section 4.4: the size is recognised first; the
  footer is parsed, the segment value fixed and the call sites patched (with them the fix
  of the up flag, which the specification does not list); the version box is written
  last, on the patched image. It is compared below with \<open>patch_image\<close>, the order of
  the code.
\<close>

definition patch_image_spec_order :: "codec \<Rightarrow> byte list \<Rightarrow> byte list \<Rightarrow> error + byte list" where
  "patch_image_spec_order ansi game_data patch_data =
     (if length game_data \<noteq> 0xEC00 \<and> length game_data \<noteq> 0xF382
      then Inl (ValueError ''Unknown game version'')
      else
      case read_footer patch_data of Inl e \<Rightarrow> Inl e | Inr f \<Rightarrow>
      case update_ds game_data patch_data (vars_size f) of Inl e \<Rightarrow> Inl e | Inr g2 \<Rightarrow>
      case call_reset_buffer g2 (addr_reset_buffer f) of Inl e \<Rightarrow> Inl e | Inr g3 \<Rightarrow>
      case call_put_scancode g3 (addr_put_scancode f) of Inl e \<Rightarrow> Inl e | Inr g4 \<Rightarrow>
      case call_get_scancode g4 (addr_get_scancode f) of Inl e \<Rightarrow> Inl e | Inr g5 \<Rightarrow>
      case call_on_round_start g5 (addr_on_round_start f) of Inl e \<Rightarrow> Inl e | Inr g6 \<Rightarrow>
      case fix_up_flag g6 of Inl e \<Rightarrow> Inl e | Inr g7 \<Rightarrow>
        add_version_box ansi (length g7) g7)"

section \<open>Concrete inputs\<close>

text \<open>
  Three codecs a run can meet. The ANSI code page of a Western European Windows, 1252,
  has each character the captions use (ASCII and \<open>U+00B3\<close>) as one byte, its code
  point; \<open>western_codec\<close> is that encoding on these characters (and gives the code
  point for the other characters of the type as well, which no caption holds). Under a
  UTF-8 ANSI code page a character from \<open>U+0080\<close> on is two bytes. Where Python has
  no codec of that name, every call raises \<^verbatim>\<open>LookupError\<close>.
\<close>

definition western_codec :: codec where
  "western_codec s = Inr (map (\<lambda>c. of_nat (of_char c)) s)"



definition missing_codec :: codec where
  "missing_codec s = Inl LookupError"

text \<open>The caption rows of the two versions in code page 1252.\<close>

definition row_v10 :: "byte list" where
  "row_v10 =
     [0xB3, 0x52, 0x6F, 0x75, 0x6E, 0x64, 0x20, 0x34, 0x32, 0x20, 0x76, 0x31, 0x2E, 0x30, 0x20, 0xB3]"

definition row_v20 :: "byte list" where
  "row_v20 =
     [0xB3, 0x52, 0x6F, 0x75, 0x6E, 0x64, 0x2D, 0x34, 0x32, 0x20, 0x76, 0x32, 0x2E, 0x30, 0x20, 0xB3]"

definition row_fix :: "byte list" where
  "row_fix =
     [0xB3, 0x4B, 0x65, 0x79, 0x62, 0x6F, 0x61, 0x72, 0x64, 0x20, 0x66, 0x69, 0x78, 0x20, 0x31, 0xB3]"

text \<open>A buffer with the read pattern at the offsets 10, 50 and 90.\<close>

definition example_buffer :: "byte list" where
  "example_buffer =
     replicate 10 0 @ [0xA1, 0x9E, 0x0F] @ replicate 37 0 @ [0xA1, 0x9E, 0x0F] @
     replicate 37 0 @ [0xA1, 0x9E, 0x0F] @ replicate 7 0"

text \<open>An image that ends with the segment word, here \<open>0x1234\<close>.\<close>

definition ds_example :: "byte list" where
  "ds_example = replicate 11199 0 @ [0x34, 0x12]"

text \<open>
  An image of \<open>0xEC00\<close> bytes: the key handler (which holds the one read site) at
  offset 0, the initialising write at 10, the steady-state write at 13, the round message
  code at 17 and the read of the up flag at 23, followed by zeros; the byte at offset 30,
  seven bytes after the start of the up-flag pattern, is the parameter \<open>b\<close>.
\<close>

definition example_front :: "byte \<Rightarrow> byte list" where
  "example_front b =
     [0x55, 0x8B, 0xEC, 0x55, 0xE9, 0x00, 0x00, 0xA1, 0x9E, 0x0F,
      0xA3, 0x9E, 0x0F, 0x89, 0x1E, 0x9E, 0x0F, 0xE9, 0xA7, 0x01,
      0xB9, 0x08, 0x00, 0xA0, 0x66, 0x0C, 0x00, 0x00, 0x00, 0x00,
      b, 0x00]"

definition example_image :: "byte \<Rightarrow> byte list" where
  "example_image b = example_front b @ replicate (0xEC00 - 32) 0"

text \<open>
  The front after the call to \<open>reset_buffer\<close>, to \<open>put_scancode\<close>, to
  \<open>get_scancode\<close> and to \<open>on_round_start\<close> has been written.
\<close>

definition example_front_init :: "byte \<Rightarrow> byte list" where
  "example_front_init b =
     [0x55, 0x8B, 0xEC, 0x55, 0xE9, 0x00, 0x00, 0xA1, 0x9E, 0x0F,
      0xE8, 0xF3, 0xEC, 0x89, 0x1E, 0x9E, 0x0F, 0xE9, 0xA7, 0x01,
      0xB9, 0x08, 0x00, 0xA0, 0x66, 0x0C, 0x00, 0x00, 0x00, 0x00,
      b, 0x00]"

definition example_front_write :: "byte \<Rightarrow> byte list" where
  "example_front_write b =
     [0x55, 0x8B, 0xEC, 0x55, 0xE9, 0x00, 0x00, 0xA1, 0x9E, 0x0F,
      0xE8, 0xF3, 0xEC, 0xE8, 0x00, 0xED, 0x90, 0xE9, 0xA7, 0x01,
      0xB9, 0x08, 0x00, 0xA0, 0x66, 0x0C, 0x00, 0x00, 0x00, 0x00,
      b, 0x00]"

definition example_front_reads :: "byte \<Rightarrow> byte list" where
  "example_front_reads b =
     [0x55, 0x8B, 0xEC, 0x55, 0xE9, 0x00, 0x00, 0xE8, 0x16, 0xED,
      0xE8, 0xF3, 0xEC, 0xE8, 0x00, 0xED, 0x90, 0xE9, 0xA7, 0x01,
      0xB9, 0x08, 0x00, 0xA0, 0x66, 0x0C, 0x00, 0x00, 0x00, 0x00,
      b, 0x00]"

definition example_patched_front :: "byte \<Rightarrow> byte list" where
  "example_patched_front b =
     [0x55, 0x8B, 0xEC, 0x55, 0xE9, 0x00, 0x00, 0xE8, 0x16, 0xED,
      0xE8, 0xF3, 0xEC, 0xE8, 0x00, 0xED, 0x90, 0xE9, 0xA7, 0x01,
      0xE8, 0x19, 0xED, 0xA0, 0x66, 0x0C, 0x00, 0x00, 0x00, 0x00,
      b, 0x00]"

text \<open>
  A patch that is only its footer: no variables, and the four entry addresses
  \<open>0xED00\<close>, \<open>0xED10\<close>, \<open>0xED20\<close>, \<open>0xED30\<close>, just above the loaded image.
\<close>

definition example_blob :: "byte list" where
  "example_blob = [0x00, 0x00, 0x00, 0xED, 0x10, 0xED, 0x20, 0xED, 0x30, 0xED]"

definition example_footer :: footer where
  "example_footer = \<lparr>vars_size = 0, addr_reset_buffer = 0xED00, addr_put_scancode = 0xED10,
     addr_get_scancode = 0xED20, addr_on_round_start = 0xED30\<rparr>"

text \<open>The zeros behind the front, with the version box and with the new segment value.\<close>

definition example_boxed_rest :: "byte list" where
  "example_boxed_rest =
     box_written (replicate (0xEC00 - 32) 0) (0xE5A2 - 32) (0xE5F1 - 32) (0xE640 - 32)
       (0xE68F - 32) row_v10 row_fix"

definition example_rest :: "byte list" where
  "example_rest = example_boxed_rest[0x2BBF - 32 := 0xD1, 0x2BC0 - 32 := 0x0E]"

text \<open>The assembler of the example: it delivers the patch for this image only.\<close>

definition example_builder :: builder where
  "example_builder game_size key_handler =
     (if game_size = 0xEC00 \<and> key_handler = 0x100 then Blob example_blob else BuildFailed)"

definition example_stages :: "byte \<Rightarrow> stages" where
  "example_stages b =
     \<lparr>boxed = example_front b @ example_boxed_rest,
      ftr = example_footer,
      ds_fixed = example_front b @ example_rest,
      loc_init = 10,
      init_patched = example_front_init b @ example_rest,
      loc_write = 13,
      write_patched = example_front_write b @ example_rest,
      locs_read = [7],
      reads_patched = example_front_reads b @ example_rest,
      loc_round = 17,
      round_patched = example_patched_front b @ example_rest,
      loc_up_flag = 23,
      up_fixed = example_patched_front (b + 1) @ example_rest\<rparr>"

text \<open>
  The same image with a last byte of 1, and what a run under the UTF-8 code page makes of
  it: the two caption rows have 18 bytes each, so the bytes behind them move up.
\<close>

definition row_v10_utf8 :: "byte list" where
  "row_v10_utf8 =
     [0xC2, 0xB3, 0x52, 0x6F, 0x75, 0x6E, 0x64, 0x20, 0x34, 0x32, 0x20, 0x76, 0x31, 0x2E, 0x30,
      0x20, 0xC2, 0xB3]"

definition row_fix_utf8 :: "byte list" where
  "row_fix_utf8 =
     [0xC2, 0xB3, 0x4B, 0x65, 0x79, 0x62, 0x6F, 0x61, 0x72, 0x64, 0x20, 0x66, 0x69, 0x78, 0x20,
      0x31, 0xC2, 0xB3]"


definition tail_boxed_rest :: "byte list" where
  "tail_boxed_rest =
     box_written (replicate (0xEC00 - 33) 0 @ [0x01]) (0xE5A2 - 32) (0xE5F1 - 32) (0xE640 - 32)
       (0xE68F - 32) row_v10_utf8 row_fix_utf8"

definition tail_rest :: "byte list" where
  "tail_rest = tail_boxed_rest[0x2BBF - 32 := 0xD1, 0x2BC0 - 32 := 0x0E]"


text \<open>
  An image whose only initialising write lies in the top row of the version box, at
  offset \<open>0xE5A2\<close>; the other sites are in the front, as in the example above.
\<close>

definition boxsite_front :: "byte list" where
  "boxsite_front =
     [0x55, 0x8B, 0xEC, 0x55, 0xE9, 0x00, 0x00, 0xA1, 0x9E, 0x0F,
      0x00, 0x00, 0x00, 0x89, 0x1E, 0x9E, 0x0F, 0xE9, 0xA7, 0x01,
      0xB9, 0x08, 0x00, 0xA0, 0x66, 0x0C, 0x00, 0x00, 0x00, 0x00,
      0x00, 0x00]"

definition boxsite_front_write :: "byte list" where
  "boxsite_front_write =
     [0x55, 0x8B, 0xEC, 0x55, 0xE9, 0x00, 0x00, 0xA1, 0x9E, 0x0F,
      0x00, 0x00, 0x00, 0xE8, 0x00, 0xED, 0x90, 0xE9, 0xA7, 0x01,
      0xB9, 0x08, 0x00, 0xA0, 0x66, 0x0C, 0x00, 0x00, 0x00, 0x00,
      0x00, 0x00]"

definition boxsite_front_reads :: "byte list" where
  "boxsite_front_reads =
     [0x55, 0x8B, 0xEC, 0x55, 0xE9, 0x00, 0x00, 0xE8, 0x16, 0xED,
      0x00, 0x00, 0x00, 0xE8, 0x00, 0xED, 0x90, 0xE9, 0xA7, 0x01,
      0xB9, 0x08, 0x00, 0xA0, 0x66, 0x0C, 0x00, 0x00, 0x00, 0x00,
      0x00, 0x00]"

definition boxsite_front_round :: "byte list" where
  "boxsite_front_round =
     [0x55, 0x8B, 0xEC, 0x55, 0xE9, 0x00, 0x00, 0xE8, 0x16, 0xED,
      0x00, 0x00, 0x00, 0xE8, 0x00, 0xED, 0x90, 0xE9, 0xA7, 0x01,
      0xE8, 0x19, 0xED, 0xA0, 0x66, 0x0C, 0x00, 0x00, 0x00, 0x00,
      0x00, 0x00]"

definition boxsite_patched_front :: "byte list" where
  "boxsite_patched_front =
     [0x55, 0x8B, 0xEC, 0x55, 0xE9, 0x00, 0x00, 0xE8, 0x16, 0xED,
      0x00, 0x00, 0x00, 0xE8, 0x00, 0xED, 0x90, 0xE9, 0xA7, 0x01,
      0xE8, 0x19, 0xED, 0xA0, 0x66, 0x0C, 0x00, 0x00, 0x00, 0x00,
      0x01, 0x00]"

definition boxsite_rest :: "byte list" where
  "boxsite_rest =
     replicate (0xE5A2 - 32) 0 @ [0xA3, 0x9E, 0x0F] @ replicate (0xEC00 - 0xE5A5) 0"

definition boxsite_image :: "byte list" where
  "boxsite_image = boxsite_front @ boxsite_rest"

text \<open>The rest of that image with the version box, as the code has it when it searches.\<close>

definition boxsite_boxed_rest :: "byte list" where
  "boxsite_boxed_rest =
     box_written boxsite_rest (0xE5A2 - 32) (0xE5F1 - 32) (0xE640 - 32) (0xE68F - 32)
       row_v10 row_fix"

text \<open>
  The rest of that image in the order of the specification: the zeros with the new
  segment value, and behind them the site with its call.
\<close>

definition boxsite_zeros :: "byte list" where
  "boxsite_zeros = (replicate (0xE5A2 - 32) 0)[0x2BBF - 32 := 0xD1, 0x2BC0 - 32 := 0x0E]"

definition boxsite_rest_patched :: "byte list" where
  "boxsite_rest_patched = boxsite_zeros @ [0xE8, 0x5B, 0x07] @ replicate (0xEC00 - 0xE5A5) 0"

section \<open>The pattern matcher\<close>

lemma occurs_at_prefix:
  "occurs_at xs sub i \<longleftrightarrow> i \<le> length xs \<and> prefix sub (drop i xs)"
proof
  assume a: "occurs_at xs sub i"
  then have "prefix (take (length sub) (drop i xs)) (drop i xs)"
    by (simp add: take_is_prefix)
  with a show "i \<le> length xs \<and> prefix sub (drop i xs)"
    by (simp add: occurs_at_def)
next
  assume a: "i \<le> length xs \<and> prefix sub (drop i xs)"
  then obtain zs where zs: "drop i xs = sub @ zs"
    by (auto simp: prefix_def)
  then have "length xs - i = length sub + length zs"
    by (metis length_append length_drop)
  with a zs show "occurs_at xs sub i"
    by (simp add: occurs_at_def)
qed

lemma occurs_at_Nil [simp]: "occurs_at [] sub i \<longleftrightarrow> sub = [] \<and> i = 0"
  by (auto simp: occurs_at_def)

lemma occurs_at_Cons_0 [simp]: "occurs_at (x # xs) sub 0 \<longleftrightarrow> prefix sub (x # xs)"
  by (simp add: occurs_at_prefix)

lemma occurs_at_Cons_Suc [simp]: "occurs_at (x # xs) sub (Suc j) \<longleftrightarrow> occurs_at xs sub j"
  by (simp add: occurs_at_prefix)

lemma find_first_Some:
  "find_first sub xs = Some i \<longleftrightarrow> occurs_at xs sub i \<and> (\<forall>j<i. \<not> occurs_at xs sub j)"
proof (induction xs arbitrary: i)
  case Nil
  then show ?case by auto
next
  case (Cons x xs)
  show ?case
  proof (cases "prefix sub (x # xs)")
    case True
    then show ?thesis by (cases i) auto
  next
    case False
    show ?thesis
    proof (cases i)
      case 0
      with False show ?thesis by simp
    next
      case (Suc k)
      have "(\<forall>j<Suc k. \<not> occurs_at (x # xs) sub j) \<longleftrightarrow> (\<forall>j<k. \<not> occurs_at xs sub j)"
        using False by (auto simp: less_Suc_eq_0_disj)
      with False Suc Cons.IH [of k] show ?thesis by auto
    qed
  qed
qed

lemma find_first_None:
  "find_first sub xs = None \<longleftrightarrow> (\<forall>i. \<not> occurs_at xs sub i)"
proof (induction xs)
  case Nil
  then show ?case by auto
next
  case (Cons x xs)
  have "(\<forall>i. \<not> occurs_at (x # xs) sub i) \<longleftrightarrow> \<not> prefix sub (x # xs) \<and> (\<forall>i. \<not> occurs_at xs sub i)"
    by (metis occurs_at_Cons_0 occurs_at_Cons_Suc not0_implies_Suc)
  with Cons show ?case by auto
qed

lemma occurs_at_drop:
  "start \<le> length data \<Longrightarrow> occurs_at (drop start data) sub i \<longleftrightarrow> occurs_at data sub (start + i)"
  by (auto simp: occurs_at_def add.commute add.left_commute)

lemma occurs_at_le: "occurs_at data sub i \<Longrightarrow> i \<le> length data"
  by (simp add: occurs_at_def)

lemma bytes_find_Some:
  "bytes_find data sub start = Some p \<longleftrightarrow>
     start \<le> p \<and> occurs_at data sub p \<and> (\<forall>j. start \<le> j \<and> j < p \<longrightarrow> \<not> occurs_at data sub j)"
proof (cases "length data < start")
  case True
  then show ?thesis by (auto simp: bytes_find_def dest: occurs_at_le)
next
  case False
  then have le: "start \<le> length data" by simp
  show ?thesis
  proof
    assume "bytes_find data sub start = Some p"
    with le obtain i where i: "find_first sub (drop start data) = Some i" "p = start + i"
      by (auto simp: bytes_find_def)
    from i(1) le have "occurs_at data sub (start + i)"
      and "\<forall>j<i. \<not> occurs_at data sub (start + j)"
      by (simp_all add: find_first_Some occurs_at_drop)
    moreover have "\<exists>k<i. j = start + k" if "start \<le> j" "j < start + i" for j
      using that by (intro exI [of _ "j - start"]) auto
    ultimately show "start \<le> p \<and> occurs_at data sub p \<and>
        (\<forall>j. start \<le> j \<and> j < p \<longrightarrow> \<not> occurs_at data sub j)"
      using i(2) by auto
  next
    assume a: "start \<le> p \<and> occurs_at data sub p \<and>
        (\<forall>j. start \<le> j \<and> j < p \<longrightarrow> \<not> occurs_at data sub j)"
    then have "find_first sub (drop start data) = Some (p - start)"
      using le by (simp add: find_first_Some occurs_at_drop)
    with a le show "bytes_find data sub start = Some p"
      by (simp add: bytes_find_def)
  qed
qed

lemma bytes_find_None:
  "bytes_find data sub start = None \<longleftrightarrow> (\<forall>j\<ge>start. \<not> occurs_at data sub j)"
proof (cases "length data < start")
  case True
  then show ?thesis by (auto simp: bytes_find_def dest: occurs_at_le)
next
  case False
  then have le: "start \<le> length data" by simp
  then show ?thesis
    by (auto simp: bytes_find_def find_first_None occurs_at_drop) (metis le_add_diff_inverse)
qed


text \<open>The loop of \<^verbatim>\<open>find_pattern_all\<close> collects every occurrence, in ascending order.\<close>

declare find_loop.simps [simp del]

lemma find_loop_eq:
  "find_loop data pattern pos results =
     results @ filter (occurs_at data pattern) [pos..<Suc (length data)]"
proof (induction data pattern pos results rule: find_loop.induct)
  case (1 data pattern pos results)
  show ?case
  proof (cases "bytes_find data pattern pos")
    case None
    then have "filter (occurs_at data pattern) [pos..<Suc (length data)] = []"
      by (auto simp: bytes_find_None filter_empty_conv)
    with None show ?thesis
      by (subst find_loop.simps) simp
  next
    case (Some q)
    then have q: "pos \<le> q" "q \<le> length data" "occurs_at data pattern q"
      and before: "\<forall>j. pos \<le> j \<and> j < q \<longrightarrow> \<not> occurs_at data pattern j"
      by (auto simp: bytes_find_Some dest: occurs_at_le)
    have "[pos..<Suc (length data)] = [pos..<q] @ q # [Suc q..<Suc (length data)]"
    proof -
      have "[pos..<q + (Suc (length data) - q)] = [pos..<q] @ [q..<q + (Suc (length data) - q)]"
        using q(1) by (rule upt_add_eq_append)
      moreover have "q + (Suc (length data) - q) = Suc (length data)"
        using q(2) by simp
      moreover have "[q..<Suc (length data)] = q # [Suc q..<Suc (length data)]"
        using q(2) by (intro upt_conv_Cons) simp
      ultimately show ?thesis by simp
    qed
    moreover have "filter (occurs_at data pattern) [pos..<q] = []"
      using before by (auto simp: filter_empty_conv)
    ultimately have "filter (occurs_at data pattern) [pos..<Suc (length data)] =
        q # filter (occurs_at data pattern) [Suc q..<Suc (length data)]"
      using q(3) by (simp del: upt_Suc)
    with Some "1.IH" [OF Some] show ?thesis
      by (subst find_loop.simps) (simp del: upt_Suc)
  qed
qed

lemma set_occurrences:
  "set (filter (occurs_at data pattern) [0..<Suc (length data)]) = {i. occurs_at data pattern i}"
  using occurs_at_le [of data pattern] by (auto simp del: upt_Suc simp: less_Suc_eq_le)

text \<open>The formatting of the code produces that representation.\<close>

lemma hex_digit_char: "d < 16 \<Longrightarrow> hex_digit d = hex_char d"
proof -
  have "\<forall>d<16. hex_digit d = hex_char d"
    by (simp add: eval_nat_numeral All_less_Suc hex_digit_def hex_char_def)
  then show "d < 16 \<Longrightarrow> hex_digit d = hex_char d" by blast
qed

lemma hex_byte_chars:
  "hex_byte b = [hex_char (unat b div 16), hex_char (unat b mod 16)]"
proof -
  have "unat b < 256"
    using unsigned_less [of b, where ?'a = nat] by simp
  then have "unat b div 16 < 16" "unat b mod 16 < 16"
    by simp_all
  then show ?thesis
    by (simp add: hex_byte_def hex_digit_char)
qed

lemma join_space_Cons:
  "join_space (s # ss) = s @ (if ss = [] then [] else '' '' @ join_space ss)"
  by (cases ss) simp_all

lemma hex_pattern_Cons:
  "hex_pattern (b # bs) =
     hex_char (unat b div 16) # hex_char (unat b mod 16) #
       (if bs = [] then [] else CHR '' '' # hex_pattern bs)"
  by (simp add: hex_pattern_def join_space_Cons hex_byte_chars)

lemma hex_pattern_is_hex: "is_hex_of (hex_pattern bs) bs"
proof (induction bs)
  case Nil
  show ?case by (simp add: is_hex_of_def hex_pattern_def)
next
  case (Cons b bs)
  let ?h = "hex_pattern bs"
  let ?d1 = "hex_char (unat b div 16)" and ?d2 = "hex_char (unat b mod 16)"
  show ?case
  proof (cases "bs = []")
    case True
    then show ?thesis
      by (simp add: is_hex_of_def hex_pattern_Cons)
  next
    case False
    then have pos: "0 < length bs" by simp
    have eq: "hex_pattern (b # bs) = ?d1 # ?d2 # CHR '' '' # ?h"
      using False by (simp add: hex_pattern_Cons)
    from Cons.IH have len: "length ?h = 3 * length bs - 1"
      and digits: "\<forall>i<length bs. ?h ! (3 * i) = hex_char (unat (bs ! i) div 16) \<and>
        ?h ! (3 * i + 1) = hex_char (unat (bs ! i) mod 16)"
      and blanks: "\<forall>i. i + 1 < length bs \<longrightarrow> ?h ! (3 * i + 2) = CHR '' ''"
      by (simp_all add: is_hex_of_def)
    have 1: "length (hex_pattern (b # bs)) = 3 * length (b # bs) - 1"
      using pos by (simp add: eq len)
    have 2: "hex_pattern (b # bs) ! (3 * i) = hex_char (unat ((b # bs) ! i) div 16) \<and>
        hex_pattern (b # bs) ! (3 * i + 1) = hex_char (unat ((b # bs) ! i) mod 16)"
      if "i < length (b # bs)" for i
    proof (cases i)
      case 0
      then show ?thesis by (simp add: eq)
    next
      case (Suc k)
      have e: "3 * Suc k = Suc (Suc (Suc (3 * k)))" "3 * Suc k + 1 = Suc (Suc (Suc (3 * k + 1)))"
        by simp_all
      from that Suc have "k < length bs" by simp
      with digits show ?thesis
        unfolding Suc eq e by simp
    qed
    have 3: "hex_pattern (b # bs) ! (3 * i + 2) = CHR '' ''" if "i + 1 < length (b # bs)" for i
    proof (cases i)
      case 0
      then show ?thesis by (simp add: eq)
    next
      case (Suc k)
      have e: "3 * Suc k + 2 = Suc (Suc (Suc (3 * k + 2)))"
        by simp
      from that Suc have "k + 1 < length bs" by simp
      with blanks show ?thesis
        unfolding Suc eq e by simp
    qed
    from 1 2 3 show ?thesis
      unfolding is_hex_of_def by blast
  qed
qed

text \<open>
  Claim C6. When the pattern occurs nowhere in the buffer, \<^verbatim>\<open>find_pattern\<close> and
  \<^verbatim>\<open>find_pattern_all\<close> both raise the \<^verbatim>\<open>ValueError\<close> whose message is
  \<^verbatim>\<open>Could not find pattern: [...] in input file\<close> with the hexadecimal representation
  of the pattern between the brackets (two lower-case digits a byte, separated by blanks):
  neither returns a position, an empty list or a sentinel.
\<close>

theorem absent_pattern_is_fatal:
  assumes "\<forall>i. \<not> occurs_at data pattern i"
  shows "\<exists>h. is_hex_of h pattern \<and>
           find_pattern data pattern =
             Inl (ValueError (''Could not find pattern: ['' @ h @ ''] in input file'')) \<and>
           find_pattern_all data pattern =
             Inl (ValueError (''Could not find pattern: ['' @ h @ ''] in input file''))"
proof -
  from assms have "bytes_find data pattern 0 = None"
    by (simp add: bytes_find_None)
  moreover from assms have "find_loop data pattern 0 [] = []"
    by (simp add: find_loop_eq filter_empty_conv del: upt_Suc)
  ultimately have "find_pattern data pattern =
      Inl (ValueError (''Could not find pattern: ['' @ hex_pattern pattern @ ''] in input file'')) \<and>
    find_pattern_all data pattern =
      Inl (ValueError (''Could not find pattern: ['' @ hex_pattern pattern @ ''] in input file''))"
    by (simp add: find_pattern_def find_pattern_all_def pattern_not_found_def)
  with hex_pattern_is_hex [of pattern] show ?thesis
    by (intro exI [of _ "hex_pattern pattern"]) simp
qed

theorem absent_pattern_is_fatal_witness:
  "is_hex_of ''a3 9e 0f'' [0xA3, 0x9E, 0x0F] \<and>
   find_pattern [1, 2, 3] [0xA3, 0x9E, 0x0F] =
     Inl (ValueError ''Could not find pattern: [a3 9e 0f] in input file'') \<and>
   find_pattern_all [1, 2, 3] [0xA3, 0x9E, 0x0F] =
     Inl (ValueError ''Could not find pattern: [a3 9e 0f] in input file'')"
proof -
  have "find_first [0xA3, 0x9E, 0x0F] [1, 2, 3 :: byte] = None"
    by simp
  then have "\<forall>i. \<not> occurs_at [1, 2, 3 :: byte] [0xA3, 0x9E, 0x0F] i"
    by (rule find_first_None [THEN iffD1])
  from absent_pattern_is_fatal [OF this] obtain h where
    h: "is_hex_of h [0xA3, 0x9E, 0x0F]"
    and one: "find_pattern [1, 2, 3] [0xA3, 0x9E, 0x0F] =
      Inl (ValueError (''Could not find pattern: ['' @ h @ ''] in input file''))"
    and all: "find_pattern_all [1, 2, 3] [0xA3, 0x9E, 0x0F] =
      Inl (ValueError (''Could not find pattern: ['' @ h @ ''] in input file''))"
    by blast
  have "find_pattern [1, 2, 3] [0xA3, 0x9E, 0x0F] =
      Inl (ValueError (''Could not find pattern: ['' @ ''a3 9e 0f'' @ ''] in input file''))"
    by (simp add: find_pattern_def bytes_find_def pattern_not_found_def hex_pattern_def
        hex_byte_def hex_digit_def)
  with one have "h = ''a3 9e 0f''"
    by simp
  with h one all show ?thesis by simp
qed

text \<open>
  Claim C7. When the pattern occurs in the buffer, \<^verbatim>\<open>find_pattern_all\<close> returns the
  offsets of all its occurrences and nothing else, in strictly ascending order; when the
  occurrences are exactly at 10, 50 and 90, the result is the list \<open>[10, 50, 90]\<close>.
\<close>

theorem find_pattern_all_occurrences:
  assumes "\<exists>i. occurs_at data pattern i"
  shows "\<exists>locs. find_pattern_all data pattern = Inr locs \<and>
           set locs = {i. occurs_at data pattern i} \<and>
           sorted_wrt (<) locs \<and>
           ({i. occurs_at data pattern i} = {10, 50, 90} \<longrightarrow> locs = [10, 50, 90])"
proof -
  let ?locs = "filter (occurs_at data pattern) [0..<Suc (length data)]"
  have set: "set ?locs = {i. occurs_at data pattern i}"
    by (rule set_occurrences)
  with assms have "?locs \<noteq> []"
    by (metis empty_iff empty_set mem_Collect_eq)
  then have "find_pattern_all data pattern = Inr ?locs"
    by (simp add: find_pattern_all_def find_loop_eq del: upt_Suc)
  moreover have sorted: "sorted_wrt (<) ?locs"
    by (simp add: sorted_wrt_filter del: upt_Suc)
  moreover have "?locs = [10, 50, 90]" if "{i. occurs_at data pattern i} = {10, 50, 90}"
  proof -
    have "sorted_wrt (<) [10, 50, 90 :: nat]" by simp
    moreover note sorted
    moreover have "set ?locs = set [10, 50, 90]" using that set by simp
    ultimately show ?thesis by (rule strict_sorted_equal)
  qed
  ultimately show ?thesis using set by (intro exI [of _ ?locs]) simp
qed

text \<open>A run of bytes that differ from the first byte of the pattern is skipped.\<close>

lemma find_first_skip:
  "sub \<noteq> [] \<Longrightarrow> hd sub \<noteq> x \<Longrightarrow>
     find_first sub (replicate n x @ ys) = map_option (\<lambda>i. n + i) (find_first sub ys)"
proof (induction n)
  case 0
  show ?case by (simp add: option.map_ident)
next
  case (Suc n)
  from Suc.prems have "\<not> prefix sub (x # replicate n x @ ys)"
    by (cases sub) auto
  with Suc show ?case
    by (simp add: option.map_comp comp_def)
qed

lemma find_first_zeros:
  "sub \<noteq> [] \<Longrightarrow> hd sub \<noteq> x \<Longrightarrow> find_first sub (replicate n x) = None"
  using find_first_skip [of sub x n "[]"] by simp

lemma example_buffer_find_loop:
  "find_loop example_buffer [0xA1, 0x9E, 0x0F] 0 [] = [10, 50, 90]"
  unfolding example_buffer_def
  apply (subst find_loop.simps, simp add: bytes_find_def find_first_skip)
  apply (subst find_loop.simps, simp add: bytes_find_def find_first_skip)
  apply (subst find_loop.simps, simp add: bytes_find_def find_first_skip)
  apply (subst find_loop.simps, simp add: bytes_find_def find_first_skip find_first_zeros)
  done


theorem find_pattern_all_occurrences_witness:
  "find_pattern_all example_buffer [0xA1, 0x9E, 0x0F] = Inr [10, 50, 90]"
proof -
  have "set (find_loop example_buffer [0xA1, 0x9E, 0x0F] 0 []) =
      {i. occurs_at example_buffer [0xA1, 0x9E, 0x0F] i}"
    by (simp only: find_loop_eq append_Nil set_occurrences)
  then have occ: "{i. occurs_at example_buffer [0xA1, 0x9E, 0x0F] i} = {10, 50, 90}"
    by (simp add: example_buffer_find_loop)
  then have "\<exists>i. occurs_at example_buffer [0xA1, 0x9E, 0x0F] i"
    by blast
  from find_pattern_all_occurrences [OF this] occ show ?thesis
    by auto
qed

section \<open>The relocation encoder\<close>

subsection \<open>slice assignment inside the list\<close>

lemma length_slice_assign:
  "lo + length new \<le> length xs \<Longrightarrow>
     length (slice_assign xs lo (lo + length new) new) = length xs"
  by (simp add: slice_assign_def)

lemma nth_slice_assign:
  "lo + length new \<le> length xs \<Longrightarrow> i < length xs \<Longrightarrow>
     slice_assign xs lo (lo + length new) new ! i =
       (if lo \<le> i \<and> i < lo + length new then new ! (i - lo) else xs ! i)"
  by (auto simp: slice_assign_def nth_append min_def)

lemma take_slice_assign:
  "lo \<le> length xs \<Longrightarrow> take lo (slice_assign xs lo hi new) = take lo xs"
  by (simp add: slice_assign_def)

lemma drop_slice_assign:
  "lo + length new \<le> length xs \<Longrightarrow>
     drop (lo + length new) (slice_assign xs lo (lo + length new) new) = drop (lo + length new) xs"
  by (simp add: slice_assign_def)

lemma site_slice_assign:
  "lo \<le> length xs \<Longrightarrow>
     take (length new) (drop lo (slice_assign xs lo hi new)) = new"
  by (simp add: slice_assign_def)

lemma uint_lo_hi:
  assumes "0 \<le> d" "d \<le> 65535"
  shows "uint (word_of_int (d mod 256) :: byte) + 256 * uint (word_of_int (d div 256) :: byte) = d"
proof -
  have "uint (word_of_int (d mod 256) :: byte) = d mod 256"
    by (simp add: uint_word_of_int take_bit_eq_mod)
  moreover have "d div 256 < 256" using assms by simp
  then have "uint (word_of_int (d div 256) :: byte) = d div 256"
    using assms by (simp add: uint_word_of_int take_bit_eq_mod)
  ultimately show ?thesis by simp
qed

text \<open>
  Claim C1, as amended. For a site of at least 3 bytes that lies inside the image, let
  \<open>d\<close> be the call address minus (site offset + 3). If \<open>0 \<le> d \<le> 65535\<close>,
  \<^verbatim>\<open>patch_call\<close> overwrites exactly the bytes of the site, with the opcode \<open>0xE8\<close>,
  the two bytes of \<open>d\<close> as an unsigned little-endian 16-bit value and \<open>sz - 3\<close>
  bytes \<open>0x90\<close>; the bytes before and after the site and the length of the image are
  unchanged. The displacement the processor decodes, added to site offset + 3, is the
  call address modulo \<open>2^16\<close>, and the call address itself when \<open>d \<le> 32767\<close>.
  For every other \<open>d\<close> (negative, or above 65535) \<^verbatim>\<open>struct.pack("<H", ...)\<close> raises
  \<^verbatim>\<open>struct.error\<close> and nothing is written: the displacement never wraps silently.
\<close>

theorem patch_call_encoding:
  assumes "3 \<le> sz" and "patch_location + sz \<le> length game_data"
  shows "let d = int call_address - (int patch_location + 3) in
         if 0 \<le> d \<and> d \<le> 65535 then
           (\<exists>g. patch_call game_data patch_location sz call_address = Inr g \<and>
              length g = length game_data \<and>
              take patch_location g = take patch_location game_data \<and>
              drop (patch_location + sz) g = drop (patch_location + sz) game_data \<and>
              take sz (drop patch_location g) =
                [0xE8, word_of_int (d mod 256), word_of_int (d div 256)] @ replicate (sz - 3) 0x90 \<and>
              (int patch_location + 3 +
                 decode_int16 (g ! (patch_location + 1)) (g ! (patch_location + 2))) mod 65536 =
                int call_address mod 65536 \<and>
              (d \<le> 32767 \<longrightarrow>
                 int patch_location + 3 +
                   decode_int16 (g ! (patch_location + 1)) (g ! (patch_location + 2)) =
                   int call_address))
         else patch_call game_data patch_location sz call_address = Inl StructError"
proof -
  define d where "d = int call_address - (int patch_location + 3)"
  show ?thesis
  proof (cases "0 \<le> d \<and> d \<le> 65535")
    case False
    then show ?thesis
      by (auto simp: d_def patch_call_def pack_H_def Let_def)
  next
    case True
    define new :: "byte list" where
      "new = [0xE8, word_of_int (d mod 256), word_of_int (d div 256)] @ replicate (sz - 3) 0x90"
    define g where "g = slice_assign game_data patch_location (patch_location + sz) new"
    have len_new: "length new = sz"
      using assms(1) by (simp add: new_def)
    have run: "patch_call game_data patch_location sz call_address = Inr g"
      using True by (simp add: patch_call_def pack_H_def Let_def d_def [symmetric] g_def new_def)
    have fit: "patch_location + length new \<le> length game_data"
      using assms(2) len_new by simp
    have g': "g = slice_assign game_data patch_location (patch_location + length new) new"
      by (simp add: g_def len_new)
    have len: "length g = length game_data"
      unfolding g' using fit by (rule length_slice_assign)
    have before: "take patch_location g = take patch_location game_data"
      unfolding g' using fit by (intro take_slice_assign) simp
    have after: "drop (patch_location + sz) g = drop (patch_location + sz) game_data"
      using drop_slice_assign [OF fit] by (simp add: g' len_new)
    have site: "take sz (drop patch_location g) = new"
      using site_slice_assign [of patch_location game_data new "patch_location + length new"] fit
      by (simp add: g' len_new)
    have "g ! (patch_location + 1) = new ! 1"
      unfolding g' using nth_slice_assign [OF fit, of "patch_location + 1"] assms len_new
      by simp
    then have b1: "g ! (patch_location + 1) = word_of_int (d mod 256)"
      by (simp add: new_def)
    have "g ! (patch_location + 2) = new ! 2"
      unfolding g' using nth_slice_assign [OF fit, of "patch_location + 2"] assms len_new
      by simp
    then have b2: "g ! (patch_location + 2) = word_of_int (d div 256)"
      by (simp add: new_def)
    define dec where
      "dec = decode_int16 (g ! (patch_location + 1)) (g ! (patch_location + 2))"
    have "uint (word_of_int (d mod 256) :: byte) + 256 * uint (word_of_int (d div 256) :: byte) = d"
      using True by (intro uint_lo_hi) simp_all
    then have dec: "dec = (if d < 32768 then d else d - 65536)"
      unfolding dec_def b1 b2 decode_int16_def Let_def by simp
    have target: "int patch_location + 3 + d = int call_address"
      by (simp add: d_def)
    have exact: "int patch_location + 3 + dec = int call_address" if "d \<le> 32767"
      using that target by (simp add: dec)
    have "int patch_location + 3 + dec = int call_address \<or>
          int patch_location + 3 + dec = int call_address - 65536"
      using target by (auto simp: dec)
    then have wrapped: "(int patch_location + 3 + dec) mod 65536 = int call_address mod 65536"
      by (metis minus_mod_self2)
    have "patch_call game_data patch_location sz call_address = Inr g \<and>
        length g = length game_data \<and>
        take patch_location g = take patch_location game_data \<and>
        drop (patch_location + sz) g = drop (patch_location + sz) game_data \<and>
        take sz (drop patch_location g) = new \<and>
        (int patch_location + 3 + dec) mod 65536 = int call_address mod 65536 \<and>
        (d \<le> 32767 \<longrightarrow> int patch_location + 3 + dec = int call_address)"
      using run len before after site exact wrapped by blast
    then have "\<exists>g. patch_call game_data patch_location sz call_address = Inr g \<and>
        length g = length game_data \<and>
        take patch_location g = take patch_location game_data \<and>
        drop (patch_location + sz) g = drop (patch_location + sz) game_data \<and>
        take sz (drop patch_location g) = new \<and>
        (int patch_location + 3 +
           decode_int16 (g ! (patch_location + 1)) (g ! (patch_location + 2))) mod 65536 =
          int call_address mod 65536 \<and>
        (d \<le> 32767 \<longrightarrow>
           int patch_location + 3 +
             decode_int16 (g ! (patch_location + 1)) (g ! (patch_location + 2)) =
             int call_address)"
      unfolding dec_def by (rule exI)
    with True show ?thesis
      unfolding Let_def d_def [symmetric] new_def [symmetric] by (simp only: if_True simp_thms)
  qed
qed

text \<open>
  Claim C1 as stated fails: the site at offset 10 with target 5 has the displacement
  \<open>-8\<close>, inside the signed 16-bit range, and \<^verbatim>\<open>patch_call\<close> raises
  \<^verbatim>\<open>struct.error\<close> instead of writing \<open>E8 F8 FF\<close>.
\<close>

theorem patch_call_negative_displacement:
  "patch_call (replicate 16 0) 10 3 5 = Inl StructError"
  by (simp add: patch_call_def pack_H_def)

theorem patch_call_encoding_witness:
  "patch_call (replicate 16 0) 4 4 0x1234 =
     Inr (replicate 4 0 @ [0xE8, 0x2D, 0x12, 0x90] @ replicate 8 0) \<and>
   4 + 3 + decode_int16 0x2D 0x12 = 0x1234"
proof -
  have "(3::nat) \<le> 4" "4 + 4 \<le> length (replicate 16 (0::byte))"
    by simp_all
  from patch_call_encoding [OF this, of "0x1234"] show ?thesis
    by (simp add: decode_int16_def patch_call_def pack_H_def slice_assign_def)
qed

section \<open>The address-space accountant\<close>

lemma py_slice_word:
  assumes "off + 2 \<le> length xs"
  shows "py_slice xs (int off) (int off + 2) = [xs ! off, xs ! (off + 1)]"
proof -
  have "drop off xs = xs ! off # xs ! (off + 1) # drop (off + 2) xs"
    using assms by (simp add: Cons_nth_drop_Suc)
  then have "take 2 (drop off xs) = [xs ! off, xs ! (off + 1)]"
    by simp
  moreover have "py_slice xs (int off) (int off + 2) = take 2 (drop off xs)"
    using assms by (simp add: py_slice_def Let_def min_def)
  ultimately show ?thesis by simp
qed

lemma read_le_word_inside:
  "off + 2 \<le> length data \<Longrightarrow>
     read_le_word data (int off) = Inr (unat (data ! off) + 256 * unat (data ! (off + 1)))"
  by (simp add: read_le_word_def py_slice_word unpack_H_def)

lemma read_le_word_bound:
  "read_le_word data offset = Inr v \<Longrightarrow> v \<le> 65535"
proof -
  have "unat lo + 256 * unat hi \<le> 65535" for lo hi :: byte
    using unsigned_less [of lo, where ?'a = nat] unsigned_less [of hi, where ?'a = nat] by simp
  then show "read_le_word data offset = Inr v \<Longrightarrow> v \<le> 65535"
    by (auto simp: read_le_word_def unpack_H_def split: list.splits)
qed

lemma write_le_word_inside:
  "0 \<le> v \<Longrightarrow> v \<le> 65535 \<Longrightarrow> off + 2 \<le> length data \<Longrightarrow>
     write_le_word data off v =
       Inr (data[off := word_of_int (v mod 256), off + 1 := word_of_int (v div 256)])"
  by (simp add: write_le_word_def pack_H_def)

lemma write_le_word_too_big:
  "65535 < v \<Longrightarrow> write_le_word data off v = Inl StructError"
  by (simp add: write_le_word_def pack_H_def)

lemma unat_lo_hi:
  assumes "0 \<le> v" "v \<le> 65535"
  shows "unat (word_of_int (v mod 256) :: byte) + 256 * unat (word_of_int (v div 256) :: byte) = nat v"
proof -
  have "int (unat (word_of_int (v mod 256) :: byte) + 256 * unat (word_of_int (v div 256) :: byte)) = v"
    using uint_lo_hi [OF assms] by simp
  then show ?thesis by linarith
qed

lemma word_lo_hi:
  fixes lo hi :: byte
  defines "v \<equiv> int (unat lo + 256 * unat hi)"
  shows "word_of_int (v mod 256) = lo" and "word_of_int (v div 256) = hi"
proof -
  have lo: "0 \<le> uint lo" "uint lo < 256"
    using uint_lt2p [of lo] by simp_all
  have v: "v = uint lo + 256 * uint hi"
    by (simp add: v_def)
  have "v mod 256 = uint lo"
    using lo by (simp add: v)
  then show "word_of_int (v mod 256) = lo" by simp
  have "v div 256 = uint hi"
    using lo by (simp add: v)
  then show "word_of_int (v div 256) = hi" by simp
qed

lemma new_ds_value_no_overlap:
  "overlap eoc ds = 0 \<Longrightarrow> new_ds_value eoc ds = int ds"
  by (simp add: new_ds_value_def)

lemma new_ds_value_least:
  assumes "0 < overlap eoc ds"
  shows "int ds \<le> new_ds_value eoc ds"
    and "eoc \<le> new_ds_value eoc ds * 16"
    and "int ds \<le> v \<Longrightarrow> eoc \<le> v * 16 \<Longrightarrow> new_ds_value eoc ds \<le> v"
proof -
  from assms have ov: "overlap eoc ds = eoc - int ds * 16"
    by (simp add: overlap_def max_def split: if_splits)
  show "int ds \<le> new_ds_value eoc ds"
    using assms by (simp add: new_ds_value_def)
  show "eoc \<le> new_ds_value eoc ds * 16"
    unfolding new_ds_value_def ov by simp
  show "new_ds_value eoc ds \<le> v" if "int ds \<le> v" "eoc \<le> v * 16"
    using that unfolding new_ds_value_def ov by simp
qed

lemma unpack_H_Inr: "unpack_H bs = Inr v \<Longrightarrow> length bs = 2"
  by (auto simp: unpack_H_def split: list.splits)

lemma unpack_H_Inl: "unpack_H bs = Inl e \<Longrightarrow> e = StructError"
  by (auto simp: unpack_H_def split: list.splits)

lemma read_le_word_Inl: "read_le_word data offset = Inl e \<Longrightarrow> e = StructError"
  unfolding read_le_word_def by (rule unpack_H_Inl)

lemma read_le_word_short:
  assumes "length data < off + 2"
  shows "read_le_word data (int off) = Inl StructError"
proof -
  have "length (py_slice data (int off) (int off + 2)) \<noteq> 2"
    using assms by (auto simp: py_slice_def Let_def min_def)
  then have "\<not> (\<exists>v. read_le_word data (int off) = Inr v)"
    unfolding read_le_word_def using unpack_H_Inr by blast
  then obtain e where "read_le_word data (int off) = Inl e"
    by (cases "read_le_word data (int off)") auto
  with read_le_word_Inl [OF this] show ?thesis by simp
qed

lemma read_le_word_le_word:
  "off + 2 \<le> length data \<Longrightarrow> read_le_word data (int off) = Inr (le_word data off)"
  by (simp add: read_le_word_inside le_word_def)

lemma ds_example_word: "le_word ds_example 0x2BBF = 0x1234"
  by (simp add: le_word_def ds_example_def nth_append)

text \<open>
  Claim C2, as amended. Let \<open>old\<close> be the word at \<open>0x2BBF\<close> of the image,
  \<open>eoc\<close> the load base \<open>0x100\<close> plus the lengths of the image and of the patch
  plus the size of the variables, and \<open>ov\<close> the part of \<open>eoc\<close> above 16 times
  \<open>old\<close> (never below 0). When \<open>ov\<close> is 0, the update writes the old value back:
  the image is unchanged. When \<open>ov\<close> is positive and the smallest value not below
  \<open>old\<close> whose 16-fold reaches \<open>eoc\<close> fits 16 bits, the update writes that value
  at \<open>0x2BBF\<close> and changes nothing else; when that value is above 65535,
  \<^verbatim>\<open>struct.pack_into\<close> raises \<^verbatim>\<open>struct.error\<close> and nothing is written back. An
  image that does not hold the two bytes of the word raises \<^verbatim>\<open>struct.error\<close> as well.
\<close>

theorem segment_fix:
  "(length game_data < 0x2BBF + 2 \<longrightarrow>
      update_ds game_data patch_data vsize = Inl StructError) \<and>
   (0x2BBF + 2 \<le> length game_data \<longrightarrow>
      (let old = le_word game_data 0x2BBF;
           eoc = 0x100 + length game_data + length patch_data + vsize;
           ov = max 0 (int eoc - int old * 16)
       in (ov = 0 \<longrightarrow> update_ds game_data patch_data vsize = Inr game_data) \<and>
          (0 < ov \<longrightarrow>
             (\<exists>new. old \<le> new \<and> eoc \<le> new * 16 \<and>
                (\<forall>v\<ge>old. eoc \<le> v * 16 \<longrightarrow> new \<le> v) \<and>
                (if new \<le> 65535 then
                   \<exists>g. update_ds game_data patch_data vsize = Inr g \<and>
                     length g = length game_data \<and>
                     le_word g 0x2BBF = new \<and>
                     (\<forall>i. i \<noteq> 0x2BBF \<and> i \<noteq> 0x2BC0 \<longrightarrow> g ! i = game_data ! i)
                 else update_ds game_data patch_data vsize = Inl StructError)))))"
proof (intro conjI impI)
  assume "length game_data < 0x2BBF + 2"
  then have "read_le_word game_data (int DS_LOCATION) = Inl StructError"
    by (intro read_le_word_short) (simp add: DS_LOCATION_def)
  then show "update_ds game_data patch_data vsize = Inl StructError"
    by (simp add: update_ds_def)
next
  assume "0x2BBF + 2 \<le> length game_data"
  then have inside: "DS_LOCATION + 2 \<le> length game_data"
    by (simp add: DS_LOCATION_def)
  define old where "old = le_word game_data 0x2BBF"
  define eoc where "eoc = 0x100 + length game_data + length patch_data + vsize"
  define ov where "ov = max 0 (int eoc - int old * 16)"
  define lo hi where "lo = game_data ! DS_LOCATION" and "hi = game_data ! (DS_LOCATION + 1)"
  have old_eq: "old = unat lo + 256 * unat hi"
    by (simp add: old_def le_word_def lo_def hi_def DS_LOCATION_def)
  have rd: "read_le_word game_data (int DS_LOCATION) = Inr old"
    using read_le_word_le_word [OF inside] by (simp add: old_def DS_LOCATION_def)
  have e: "end_of_code game_data patch_data vsize = int eoc"
    by (simp add: end_of_code_def ADDR_COM_LOAD_def eoc_def)
  have o: "overlap (int eoc) old = ov"
    by (simp add: overlap_def ov_def)
  have run: "update_ds game_data patch_data vsize =
      write_le_word game_data DS_LOCATION (new_ds_value (int eoc) old)"
    by (simp add: update_ds_def rd e)
  have none: "update_ds game_data patch_data vsize = Inr game_data" if "ov = 0"
  proof -
    have new: "new_ds_value (int eoc) old = int old"
      using that o by (intro new_ds_value_no_overlap) simp
    have "old \<le> 65535"
      using rd by (rule read_le_word_bound)
    then have "write_le_word game_data DS_LOCATION (int old) =
        Inr (game_data[DS_LOCATION := word_of_int (int old mod 256),
                       DS_LOCATION + 1 := word_of_int (int old div 256)])"
      using inside by (intro write_le_word_inside) simp_all
    also have "word_of_int (int old mod 256) = lo"
      unfolding old_eq by (rule word_lo_hi)
    also have "word_of_int (int old div 256) = hi"
      unfolding old_eq by (rule word_lo_hi)
    also have "game_data[DS_LOCATION := lo, DS_LOCATION + 1 := hi] = game_data"
      by (simp add: lo_def hi_def)
    finally show ?thesis
      by (simp add: run new)
  qed
  have some: "\<exists>new. old \<le> new \<and> eoc \<le> new * 16 \<and>
      (\<forall>v\<ge>old. eoc \<le> v * 16 \<longrightarrow> new \<le> v) \<and>
      (if new \<le> 65535 then
         \<exists>g. update_ds game_data patch_data vsize = Inr g \<and>
           length g = length game_data \<and>
           le_word g 0x2BBF = new \<and>
           (\<forall>i. i \<noteq> 0x2BBF \<and> i \<noteq> 0x2BC0 \<longrightarrow> g ! i = game_data ! i)
       else update_ds game_data patch_data vsize = Inl StructError)"
    if "0 < ov"
  proof -
    from that o have pos: "0 < overlap (int eoc) old" by simp
    define n where "n = new_ds_value (int eoc) old"
    have n0: "int old \<le> n"
      unfolding n_def by (rule new_ds_value_least(1) [OF pos])
    have n1: "int eoc \<le> n * 16"
      unfolding n_def by (rule new_ds_value_least(2) [OF pos])
    have n2: "n \<le> v" if "int old \<le> v" "int eoc \<le> v * 16" for v
      unfolding n_def using that by (rule new_ds_value_least(3) [OF pos])
    have nn: "0 \<le> n" using n0 by simp
    define new where "new = nat n"
    have int_new: "int new = n" using nn by (simp add: new_def)
    have 1: "old \<le> new" using n0 int_new by linarith
    have 2: "eoc \<le> new * 16" using n1 int_new by linarith
    have 3: "\<forall>v\<ge>old. eoc \<le> v * 16 \<longrightarrow> new \<le> v"
    proof (intro allI impI)
      fix v assume "old \<le> v" "eoc \<le> v * 16"
      then have "n \<le> int v" by (intro n2) simp_all
      then show "new \<le> v" using int_new by linarith
    qed
    have 4: "\<exists>g. update_ds game_data patch_data vsize = Inr g \<and>
           length g = length game_data \<and>
           le_word g 0x2BBF = new \<and>
           (\<forall>i. i \<noteq> 0x2BBF \<and> i \<noteq> 0x2BC0 \<longrightarrow> g ! i = game_data ! i)"
      if fits: "new \<le> 65535"
    proof -
      from fits int_new have f: "n \<le> 65535" by linarith
      define g where "g = game_data[DS_LOCATION := word_of_int (n mod 256),
                        DS_LOCATION + 1 := word_of_int (n div 256)]"
      have r: "update_ds game_data patch_data vsize = Inr g"
        using write_le_word_inside [OF nn f inside] by (simp add: run n_def g_def)
      have l: "length g = length game_data"
        by (simp add: g_def)
      have "le_word g DS_LOCATION =
          unat (word_of_int (n mod 256) :: byte) + 256 * unat (word_of_int (n div 256) :: byte)"
        using inside by (simp add: le_word_def g_def)
      also have "\<dots> = nat n"
        by (rule unat_lo_hi [OF nn f])
      finally have w: "le_word g 0x2BBF = new"
        by (simp add: new_def DS_LOCATION_def)
      have fr: "\<forall>i. i \<noteq> 0x2BBF \<and> i \<noteq> 0x2BC0 \<longrightarrow> g ! i = game_data ! i"
        by (simp add: g_def DS_LOCATION_def)
      from r l w fr show ?thesis by blast
    qed
    have 5: "update_ds game_data patch_data vsize = Inl StructError" if "\<not> new \<le> 65535"
    proof -
      from that int_new have "65535 < n" by linarith
      then have "write_le_word game_data DS_LOCATION n = Inl StructError"
        by (rule write_le_word_too_big)
      then show ?thesis by (simp add: run n_def)
    qed
    from 1 2 3 4 5 show ?thesis
      by (intro exI [of _ new]) simp
  qed
  from none some show "let old = le_word game_data 0x2BBF;
           eoc = 0x100 + length game_data + length patch_data + vsize;
           ov = max 0 (int eoc - int old * 16)
       in (ov = 0 \<longrightarrow> update_ds game_data patch_data vsize = Inr game_data) \<and>
          (0 < ov \<longrightarrow>
             (\<exists>new. old \<le> new \<and> eoc \<le> new * 16 \<and>
                (\<forall>v\<ge>old. eoc \<le> v * 16 \<longrightarrow> new \<le> v) \<and>
                (if new \<le> 65535 then
                   \<exists>g. update_ds game_data patch_data vsize = Inr g \<and>
                     length g = length game_data \<and>
                     le_word g 0x2BBF = new \<and>
                     (\<forall>i. i \<noteq> 0x2BBF \<and> i \<noteq> 0x2BC0 \<longrightarrow> g ! i = game_data ! i)
                 else update_ds game_data patch_data vsize = Inl StructError)))"
    unfolding Let_def old_def [symmetric] eoc_def [symmetric] ov_def [symmetric]
    by blast
qed

text \<open>
  Claim C2 as stated fails: with the segment value \<open>0x1234\<close> and a patch of one
  megabyte the overlap is positive, the smallest value that clears it is above 65535, and
  the update raises \<^verbatim>\<open>struct.error\<close> instead of writing a value back.
\<close>

theorem segment_overflow:
  "0x2BBF + 2 \<le> length ds_example \<and>
   le_word ds_example 0x2BBF = 0x1234 \<and>
   0 < max 0 (int (0x100 + length ds_example + length (replicate 1048576 (0 :: byte)) + 0) -
              int (le_word ds_example 0x2BBF) * 16) \<and>
   update_ds ds_example (replicate 1048576 0) 0 = Inl StructError"
proof -
  have inside: "DS_LOCATION + 2 \<le> length ds_example"
    by (simp add: DS_LOCATION_def ds_example_def)
  have old: "read_le_word ds_example (int DS_LOCATION) = Inr 0x1234"
    using read_le_word_le_word [OF inside] ds_example_word by (simp add: DS_LOCATION_def)
  have "65535 < new_ds_value (end_of_code ds_example (replicate 1048576 0) 0) 0x1234"
    by (simp add: new_ds_value_def overlap_def end_of_code_def ADDR_COM_LOAD_def ds_example_def)
  then have "write_le_word ds_example DS_LOCATION
      (new_ds_value (end_of_code ds_example (replicate 1048576 0) 0) 0x1234) = Inl StructError"
    by (rule write_le_word_too_big)
  then have "update_ds ds_example (replicate 1048576 0) 0 = Inl StructError"
    by (simp add: update_ds_def old)
  moreover have "length ds_example = 11201"
    by (simp add: ds_example_def)
  ultimately show ?thesis
    by (simp add: ds_example_word)
qed

theorem segment_fix_witness:
  "update_ds ds_example [] 0 = Inr ds_example \<and>
   (\<exists>g. update_ds ds_example [] 65535 = Inr g \<and> le_word g 0x2BBF = 4812) \<and>
   update_ds [] [] 0 = Inl StructError"
proof -
  have len: "length ds_example = 11201"
    by (simp add: ds_example_def)
  note w = ds_example_word
  from segment_fix [of ds_example "[]" 0]
  have none: "update_ds ds_example [] 0 = Inr ds_example"
    by (simp add: len w Let_def)
  from segment_fix [of ds_example "[]" 65535]
  obtain new where new: "76992 \<le> new * 16" "\<forall>v\<ge>4660. 76992 \<le> v * 16 \<longrightarrow> new \<le> v"
    "if new \<le> 65535 then
       \<exists>g. update_ds ds_example [] 65535 = Inr g \<and> length g = length ds_example \<and>
         le_word g 0x2BBF = new \<and>
         (\<forall>i. i \<noteq> 0x2BBF \<and> i \<noteq> 0x2BC0 \<longrightarrow> g ! i = ds_example ! i)
     else update_ds ds_example [] 65535 = Inl StructError"
    by (auto simp: len w Let_def)
  from new(2) have "new \<le> 4812" by simp
  with new(1) have "new = 4812" by simp
  with new(3) have some: "\<exists>g. update_ds ds_example [] 65535 = Inr g \<and> le_word g 0x2BBF = 4812"
    by auto
  from segment_fix [of "[]" "[]" 0]
  have short: "update_ds [] [] 0 = Inl StructError"
    by simp
  from none some short show ?thesis by blast
qed

section \<open>The orchestrator\<close>

lemma find_pattern_Inr:
  "find_pattern data pattern = Inr loc \<longleftrightarrow>
     occurs_at data pattern loc \<and> (\<forall>j<loc. \<not> occurs_at data pattern j)"
proof -
  have "find_pattern data pattern = Inr loc \<longleftrightarrow> bytes_find data pattern 0 = Some loc"
    by (simp add: find_pattern_def split: option.splits)
  then show ?thesis by (simp add: bytes_find_Some)
qed

lemma find_pattern_Inl:
  "find_pattern data pattern = Inl e \<longleftrightarrow>
     e = pattern_not_found pattern \<and> (\<forall>i. \<not> occurs_at data pattern i)"
proof -
  have "find_pattern data pattern = Inl e \<longleftrightarrow>
      e = pattern_not_found pattern \<and> bytes_find data pattern 0 = None"
    by (auto simp: find_pattern_def split: option.splits)
  then show ?thesis by (simp add: bytes_find_None)
qed

lemma find_pattern_all_Inl:
  "find_pattern_all data pattern = Inl e \<longleftrightarrow>
     e = pattern_not_found pattern \<and> (\<forall>i. \<not> occurs_at data pattern i)"
proof -
  have "filter (occurs_at data pattern) [0..<Suc (length data)] = [] \<longleftrightarrow>
      (\<forall>i. \<not> occurs_at data pattern i)"
    using set_occurrences [of data pattern] by (metis empty_set empty_iff mem_Collect_eq empty_Collect_eq set_empty)
  then show ?thesis
    by (auto simp: find_pattern_all_def find_loop_eq Let_def simp del: upt_Suc)
qed

lemma patch_game_cases:
  "patch_game nasm ansi w = (r, w') \<Longrightarrow>
     (\<exists>e. r = Some e \<and> w' = w) \<or>
     (\<exists>img loc blob g. r = None \<and> input_file w = Some img \<and>
        find_pattern img pattern_key_handler = Inr loc \<and>
        nasm (length img) (loc + ADDR_COM_LOAD) = Blob blob \<and>
        patch_image ansi img blob = Inr g \<and>
        w' = w\<lparr>output_file := Some (g @ blob)\<rparr>)"
  by (auto simp: patch_game_def split: option.splits sum.splits build_result.splits)

text \<open>
  Claim C3. A run that ends with an exception leaves the world as it was: the output
  file is not written. That is the case when the input cannot be read, when the key
  handler pattern is absent, when the assembler fails or its output cannot be read, when
  the size of the image is not a known one, and when patching the image raises; each
  patching step raises when its pattern is absent from the image it searches. The output
  file is written only by a run in which every earlier step has returned.
\<close>

theorem failed_run_writes_nothing:
  "(\<forall>e w'. patch_game nasm ansi w = (Some e, w') \<longrightarrow> w' = w \<and> output_file w' = output_file w) \<and>
   (input_file w = None \<longrightarrow> patch_game nasm ansi w = (Some OSError, w)) \<and>
   (\<forall>img. input_file w = Some img \<and> (\<forall>i. \<not> occurs_at img pattern_key_handler i) \<longrightarrow>
      patch_game nasm ansi w = (Some (pattern_not_found pattern_key_handler), w)) \<and>
   (\<forall>img loc. input_file w = Some img \<and> find_pattern img pattern_key_handler = Inr loc \<and>
      nasm (length img) (loc + ADDR_COM_LOAD) = BuildFailed \<longrightarrow>
      patch_game nasm ansi w = (Some CalledProcessError, w)) \<and>
   (\<forall>img loc. input_file w = Some img \<and> find_pattern img pattern_key_handler = Inr loc \<and>
      nasm (length img) (loc + ADDR_COM_LOAD) = BlobUnreadable \<longrightarrow>
      patch_game nasm ansi w = (Some OSError, w)) \<and>
   (\<forall>img. input_file w = Some img \<and> length img \<noteq> 0xEC00 \<and> length img \<noteq> 0xF382 \<longrightarrow>
      (\<exists>e. patch_game nasm ansi w = (Some e, w))) \<and>
   (\<forall>img loc blob e. input_file w = Some img \<and>
      find_pattern img pattern_key_handler = Inr loc \<and>
      nasm (length img) (loc + ADDR_COM_LOAD) = Blob blob \<and> patch_image ansi img blob = Inl e \<longrightarrow>
      patch_game nasm ansi w = (Some e, w)) \<and>
   (\<forall>g a. (\<forall>i. \<not> occurs_at g pattern_init_scancode i) \<longrightarrow>
      call_reset_buffer g a = Inl (pattern_not_found pattern_init_scancode)) \<and>
   (\<forall>g a. (\<forall>i. \<not> occurs_at g pattern_write_scancode i) \<longrightarrow>
      call_put_scancode g a = Inl (pattern_not_found pattern_write_scancode)) \<and>
   (\<forall>g a. (\<forall>i. \<not> occurs_at g pattern_read_scancode i) \<longrightarrow>
      call_get_scancode g a = Inl (pattern_not_found pattern_read_scancode)) \<and>
   (\<forall>g a. (\<forall>i. \<not> occurs_at g pattern_round_message i) \<longrightarrow>
      call_on_round_start g a = Inl (pattern_not_found pattern_round_message)) \<and>
   (\<forall>g. (\<forall>i. \<not> occurs_at g pattern_read_up_flag i) \<longrightarrow>
      fix_up_flag g = Inl (pattern_not_found pattern_read_up_flag)) \<and>
   (\<forall>w'. patch_game nasm ansi w = (None, w') \<longrightarrow>
      (\<exists>img loc blob g. input_file w = Some img \<and>
         find_pattern img pattern_key_handler = Inr loc \<and>
         nasm (length img) (loc + ADDR_COM_LOAD) = Blob blob \<and>
         patch_image ansi img blob = Inr g \<and>
         w' = w\<lparr>output_file := Some (g @ blob)\<rparr>))"
proof -
  have absent: "find_pattern g p = Inl (pattern_not_found p)" if "\<forall>i. \<not> occurs_at g p i" for g p
    using that by (simp add: find_pattern_Inl)
  have absent_all: "find_pattern_all g p = Inl (pattern_not_found p)"
    if "\<forall>i. \<not> occurs_at g p i" for g p
    using that by (simp add: find_pattern_all_Inl)
  have unknown: "\<exists>e. patch_game nasm ansi w = (Some e, w)"
    if "input_file w = Some img" "length img \<noteq> 0xEC00" "length img \<noteq> 0xF382" for img
    using that
    by (auto simp: patch_game_def patch_image_def add_version_box_def
        split: sum.splits build_result.splits)
  have 1: "\<forall>e w'. patch_game nasm ansi w = (Some e, w') \<longrightarrow> w' = w \<and> output_file w' = output_file w"
    using patch_game_cases [of nasm ansi w] by auto
  have 2: "input_file w = None \<longrightarrow> patch_game nasm ansi w = (Some OSError, w)"
    by (simp add: patch_game_def)
  have 3: "\<forall>img. input_file w = Some img \<and> (\<forall>i. \<not> occurs_at img pattern_key_handler i) \<longrightarrow>
      patch_game nasm ansi w = (Some (pattern_not_found pattern_key_handler), w)"
    by (simp add: patch_game_def absent)
  have 4: "\<forall>img loc. input_file w = Some img \<and> find_pattern img pattern_key_handler = Inr loc \<and>
      nasm (length img) (loc + ADDR_COM_LOAD) = BuildFailed \<longrightarrow>
      patch_game nasm ansi w = (Some CalledProcessError, w)"
    by (simp add: patch_game_def)
  have 5: "\<forall>img loc. input_file w = Some img \<and> find_pattern img pattern_key_handler = Inr loc \<and>
      nasm (length img) (loc + ADDR_COM_LOAD) = BlobUnreadable \<longrightarrow>
      patch_game nasm ansi w = (Some OSError, w)"
    by (simp add: patch_game_def)
  have 6: "\<forall>img. input_file w = Some img \<and> length img \<noteq> 0xEC00 \<and> length img \<noteq> 0xF382 \<longrightarrow>
      (\<exists>e. patch_game nasm ansi w = (Some e, w))"
    using unknown by blast
  have 7: "\<forall>img loc blob e. input_file w = Some img \<and>
      find_pattern img pattern_key_handler = Inr loc \<and>
      nasm (length img) (loc + ADDR_COM_LOAD) = Blob blob \<and> patch_image ansi img blob = Inl e \<longrightarrow>
      patch_game nasm ansi w = (Some e, w)"
    by (simp add: patch_game_def)
  have 8: "\<forall>g a. (\<forall>i. \<not> occurs_at g pattern_init_scancode i) \<longrightarrow>
      call_reset_buffer g a = Inl (pattern_not_found pattern_init_scancode)"
    by (simp add: call_reset_buffer_def absent)
  have 9: "\<forall>g a. (\<forall>i. \<not> occurs_at g pattern_write_scancode i) \<longrightarrow>
      call_put_scancode g a = Inl (pattern_not_found pattern_write_scancode)"
    by (simp add: call_put_scancode_def absent)
  have 10: "\<forall>g a. (\<forall>i. \<not> occurs_at g pattern_read_scancode i) \<longrightarrow>
      call_get_scancode g a = Inl (pattern_not_found pattern_read_scancode)"
    by (simp add: call_get_scancode_def absent_all)
  have 11: "\<forall>g a. (\<forall>i. \<not> occurs_at g pattern_round_message i) \<longrightarrow>
      call_on_round_start g a = Inl (pattern_not_found pattern_round_message)"
    by (simp add: call_on_round_start_def absent)
  have 12: "\<forall>g. (\<forall>i. \<not> occurs_at g pattern_read_up_flag i) \<longrightarrow>
      fix_up_flag g = Inl (pattern_not_found pattern_read_up_flag)"
    by (simp add: fix_up_flag_def absent)
  have 13: "\<forall>w'. patch_game nasm ansi w = (None, w') \<longrightarrow>
      (\<exists>img loc blob g. input_file w = Some img \<and>
         find_pattern img pattern_key_handler = Inr loc \<and>
         nasm (length img) (loc + ADDR_COM_LOAD) = Blob blob \<and>
         patch_image ansi img blob = Inr g \<and>
         w' = w\<lparr>output_file := Some (g @ blob)\<rparr>)"
    using patch_game_cases [of nasm ansi w None] by auto
  from 1 2 3 4 5 6 7 8 9 10 11 12 13 show ?thesis
    by (intro conjI)
qed


lemma hex_key_handler:
  "pattern_not_found pattern_key_handler =
     ValueError ''Could not find pattern: [55 8b ec 55 e9 00 00 a1 9e 0f] in input file''"
  by (simp add: pattern_not_found_def pattern_key_handler_def pattern_read_scancode_def
      addr_bytes_def hex_pattern_def hex_byte_def hex_digit_def)

lemma run_on_empty_image:
  "patch_game nasm ansi \<lparr>input_file = Some [], output_file = out\<rparr> =
     (Some (pattern_not_found pattern_key_handler), \<lparr>input_file = Some [], output_file = out\<rparr>)"
  by (simp add: patch_game_def find_pattern_def bytes_find_def pattern_key_handler_def)

theorem failed_run_writes_nothing_witness:
  "patch_game (\<lambda>game_size key_handler. BuildFailed) western_codec
     \<lparr>input_file = Some [], output_file = Some [1, 2, 3]\<rparr> =
     (Some (ValueError ''Could not find pattern: [55 8b ec 55 e9 00 00 a1 9e 0f] in input file''),
      \<lparr>input_file = Some [], output_file = Some [1, 2, 3]\<rparr>) \<and>
   output_file (snd (patch_game (\<lambda>game_size key_handler. BuildFailed) western_codec
     \<lparr>input_file = Some [], output_file = Some [1, 2, 3]\<rparr>)) = Some [1, 2, 3] \<and>
   patch_game (\<lambda>game_size key_handler. BuildFailed) western_codec
     \<lparr>input_file = None, output_file = Some [1, 2, 3]\<rparr> =
     (Some OSError, \<lparr>input_file = None, output_file = Some [1, 2, 3]\<rparr>) \<and>
   patch_game (\<lambda>game_size key_handler. BuildFailed) western_codec
     \<lparr>input_file = Some pattern_key_handler, output_file = Some [1, 2, 3]\<rparr> =
     (Some CalledProcessError,
      \<lparr>input_file = Some pattern_key_handler, output_file = Some [1, 2, 3]\<rparr>) \<and>
   patch_game (\<lambda>game_size key_handler. BlobUnreadable) western_codec
     \<lparr>input_file = Some pattern_key_handler, output_file = Some [1, 2, 3]\<rparr> =
     (Some OSError, \<lparr>input_file = Some pattern_key_handler, output_file = Some [1, 2, 3]\<rparr>) \<and>
   patch_game (\<lambda>game_size key_handler. Blob []) western_codec
     \<lparr>input_file = Some pattern_key_handler, output_file = Some [1, 2, 3]\<rparr> =
     (Some (ValueError ''Unknown game version''),
      \<lparr>input_file = Some pattern_key_handler, output_file = Some [1, 2, 3]\<rparr>)"
proof -
  let ?w = "\<lparr>input_file = Some [], output_file = Some [1, 2, 3 :: byte]\<rparr>"
  let ?n = "\<lparr>input_file = None, output_file = Some [1, 2, 3 :: byte]\<rparr>"
  let ?k = "\<lparr>input_file = Some pattern_key_handler, output_file = Some [1, 2, 3 :: byte]\<rparr>"
  let ?failed = "\<lambda>game_size key_handler :: nat. BuildFailed"
  let ?unreadable = "\<lambda>game_size key_handler :: nat. BlobUnreadable"
  let ?empty = "\<lambda>game_size key_handler :: nat. Blob []"
  have run: "patch_game ?failed western_codec ?w = (Some (pattern_not_found pattern_key_handler), ?w)"
    by (rule run_on_empty_image)
  have found: "find_pattern pattern_key_handler pattern_key_handler = Inr 0"
    by (simp add: find_pattern_Inr occurs_at_def)
  have unknown: "patch_image western_codec pattern_key_handler [] = Inl (ValueError ''Unknown game version'')"
    by (simp add: patch_image_def add_version_box_def pattern_defs)
  from failed_run_writes_nothing [of ?failed western_codec ?w] run
  have 1: "output_file (snd (patch_game ?failed western_codec ?w)) = output_file ?w"
    by simp
  from failed_run_writes_nothing [of ?failed western_codec ?n]
  have 2: "patch_game ?failed western_codec ?n = (Some OSError, ?n)"
    by simp
  from failed_run_writes_nothing [of ?failed western_codec ?k] found
  have 3: "patch_game ?failed western_codec ?k = (Some CalledProcessError, ?k)"
    by simp
  from failed_run_writes_nothing [of ?unreadable western_codec ?k] found
  have 4: "patch_game ?unreadable western_codec ?k = (Some OSError, ?k)"
    by simp
  from failed_run_writes_nothing [of ?empty western_codec ?k] found unknown
  have 5: "patch_game ?empty western_codec ?k = (Some (ValueError ''Unknown game version''), ?k)"
    by simp
  from run 1 2 3 4 5 show ?thesis
    by (simp add: hex_key_handler)
qed

text \<open>
  Claim C5, as amended. A run on an image of unknown size always fails and writes
  nothing, but the size is checked only after the search for the key handler and after
  the assembler has run: the error is the missing pattern when the key handler pattern
  is absent, the assembler's or the read error when the patch is not delivered, and
  \<^verbatim>\<open>ValueError("Unknown game version")\<close> otherwise, whatever the rest of the image.
\<close>

theorem unknown_size:
  assumes "input_file w = Some img" and "length img \<noteq> 0xEC00" and "length img \<noteq> 0xF382"
  shows "((\<forall>i. \<not> occurs_at img pattern_key_handler i) \<longrightarrow>
            patch_game nasm ansi w = (Some (pattern_not_found pattern_key_handler), w)) \<and>
         (\<forall>loc. find_pattern img pattern_key_handler = Inr loc \<longrightarrow>
            patch_game nasm ansi w =
              (Some (case nasm (length img) (loc + ADDR_COM_LOAD) of
                       BuildFailed \<Rightarrow> CalledProcessError
                     | BlobUnreadable \<Rightarrow> OSError
                     | Blob patch_data \<Rightarrow> ValueError ''Unknown game version''), w))"
proof (intro conjI impI allI)
  assume "\<forall>i. \<not> occurs_at img pattern_key_handler i"
  then have "find_pattern img pattern_key_handler = Inl (pattern_not_found pattern_key_handler)"
    by (simp add: find_pattern_Inl)
  with assms(1) show "patch_game nasm ansi w = (Some (pattern_not_found pattern_key_handler), w)"
    by (simp add: patch_game_def)
next
  fix loc
  assume "find_pattern img pattern_key_handler = Inr loc"
  with assms show "patch_game nasm ansi w =
      (Some (case nasm (length img) (loc + ADDR_COM_LOAD) of
               BuildFailed \<Rightarrow> CalledProcessError
             | BlobUnreadable \<Rightarrow> OSError
             | Blob patch_data \<Rightarrow> ValueError ''Unknown game version''), w)"
    by (simp add: patch_game_def patch_image_def add_version_box_def split: build_result.splits)
qed

text \<open>
  Claim C5 as stated fails: the empty image has an unknown size, and the run ends with
  the error of the missing key handler pattern, not with the unknown version.
\<close>

theorem unknown_size_pattern_error:
  "length ([] :: byte list) \<noteq> 0xEC00 \<and> length ([] :: byte list) \<noteq> 0xF382 \<and>
   patch_game (\<lambda>game_size key_handler. Blob []) western_codec \<lparr>input_file = Some [], output_file = None\<rparr> =
     (Some (ValueError ''Could not find pattern: [55 8b ec 55 e9 00 00 a1 9e 0f] in input file''),
      \<lparr>input_file = Some [], output_file = None\<rparr>) \<and>
   fst (patch_game (\<lambda>game_size key_handler. Blob []) western_codec
          \<lparr>input_file = Some [], output_file = None\<rparr>) \<noteq>
     Some (ValueError ''Unknown game version'')"
  by (simp add: run_on_empty_image hex_key_handler)

theorem unknown_size_witness:
  "patch_game (\<lambda>game_size key_handler. Blob []) western_codec
     \<lparr>input_file = Some pattern_key_handler, output_file = None\<rparr> =
     (Some (ValueError ''Unknown game version''),
      \<lparr>input_file = Some pattern_key_handler, output_file = None\<rparr>)"
proof -
  let ?w = "\<lparr>input_file = Some pattern_key_handler, output_file = None\<rparr>"
  have 1: "input_file ?w = Some pattern_key_handler" by simp
  have 2: "length pattern_key_handler \<noteq> 0xEC00" "length pattern_key_handler \<noteq> 0xF382"
    by (simp_all add: pattern_key_handler_def pattern_read_scancode_def addr_bytes_def)
  have 3: "find_pattern pattern_key_handler pattern_key_handler = Inr 0"
    by (simp add: find_pattern_Inr occurs_at_def)
  from unknown_size [OF 1 2, of "\<lambda>game_size key_handler. Blob []" western_codec] 3 show ?thesis
    by simp
qed

section \<open>Facts about the patching steps on an image with a known front\<close>

lemma find_first_absent:
  assumes "sub \<noteq> []" and "hd sub \<notin> set xs"
  shows "find_first sub xs = None"
  using assms
proof (induction xs)
  case Nil
  then show ?case by simp
next
  case (Cons a xs)
  then have "\<not> prefix sub (a # xs)"
    by (cases sub) auto
  with Cons show ?case by simp
qed

lemma slice_assign_replace:
  "slice_assign xs lo (lo + n) new = replace_bytes xs lo n new"
  by (simp add: slice_assign_def replace_bytes_def)

lemma patch_version_box_rows:
  assumes "ansi (box_row l1) = Inr r1" and "ansi (box_row l2) = Inr r2"
  shows "patch_version_box ansi xs a1 a2 a3 a4 l1 l2 = Inr (box_written xs a1 a2 a3 a4 r1 r2)"
  using assms
  by (simp add: patch_version_box_def Let_def box_written_def slice_assign_replace)


lemma replace_bytes_append_right:
  "length xs \<le> lo \<Longrightarrow>
     replace_bytes (xs @ ys) lo n new = xs @ replace_bytes ys (lo - length xs) n new"
  by (simp add: replace_bytes_def)

lemma box_written_append_right:
  assumes "length xs \<le> a1" "length xs \<le> a2" "length xs \<le> a3" "length xs \<le> a4"
  shows "box_written (xs @ ys) a1 a2 a3 a4 r1 r2 =
    xs @ box_written ys (a1 - length xs) (a2 - length xs) (a3 - length xs) (a4 - length xs) r1 r2"
  using assms by (simp add: box_written_def replace_bytes_append_right)

lemma set_replace_bytes: "set (replace_bytes xs lo n new) \<subseteq> set xs \<union> set new"
  using set_take_subset [of lo xs] set_drop_subset [of "lo + n" xs]
  by (auto simp: replace_bytes_def)

lemma set_box_written:
  "set (box_written xs a1 a2 a3 a4 r1 r2) \<subseteq>
     set xs \<union> {0xDA, 0xC4, 0xBF, 0xC0, 0xD9} \<union> set r1 \<union> set r2"
proof -
  define top :: "byte list" where "top = [0xDA] @ replicate 14 0xC4 @ [0xBF]"
  define bottom :: "byte list" where "bottom = [0xC0] @ replicate 14 0xC4 @ [0xD9]"
  define g1 where "g1 = replace_bytes xs a1 16 top"
  define g2 where "g2 = replace_bytes g1 a2 16 r1"
  define g3 where "g3 = replace_bytes g2 a3 16 r2"
  define g4 where "g4 = replace_bytes g3 a4 16 bottom"
  have top: "set top \<subseteq> {0xDA, 0xC4, 0xBF, 0xC0, 0xD9}"
    and bottom: "set bottom \<subseteq> {0xDA, 0xC4, 0xBF, 0xC0, 0xD9}"
    by (auto simp: top_def bottom_def)
  have 1: "set g1 \<subseteq> set xs \<union> set top"
    unfolding g1_def by (rule set_replace_bytes)
  have 2: "set g2 \<subseteq> set g1 \<union> set r1"
    unfolding g2_def by (rule set_replace_bytes)
  have 3: "set g3 \<subseteq> set g2 \<union> set r2"
    unfolding g3_def by (rule set_replace_bytes)
  have 4: "set g4 \<subseteq> set g3 \<union> set bottom"
    unfolding g4_def by (rule set_replace_bytes)
  have "box_written xs a1 a2 a3 a4 r1 r2 = g4"
    by (simp add: box_written_def g4_def g3_def g2_def g1_def top_def bottom_def)
  moreover have "set g4 \<subseteq> set xs \<union> {0xDA, 0xC4, 0xBF, 0xC0, 0xD9} \<union> set r1 \<union> set r2"
    using 1 2 3 4 top bottom by blast
  ultimately show ?thesis by simp
qed


text \<open>Inside the list, a slice assignment of as many bytes as the slice is an overwrite.\<close>

lemma slice_assign_overwrite:
  assumes "lo + n \<le> length xs" and "length new = n"
  shows "length (slice_assign xs lo (lo + n) new) = length xs"
    and "i < length xs \<Longrightarrow> i \<notin> {lo..<lo + n} \<Longrightarrow> slice_assign xs lo (lo + n) new ! i = xs ! i"
proof -
  from assms have fit: "lo + length new \<le> length xs" by simp
  show "length (slice_assign xs lo (lo + n) new) = length xs"
    using length_slice_assign [OF fit] assms(2) by simp
  show "slice_assign xs lo (lo + n) new ! i = xs ! i" if "i < length xs" "i \<notin> {lo..<lo + n}"
    using nth_slice_assign [OF fit that(1)] that(2) assms(2) by auto
qed

lemma replace_bytes_overwrite:
  assumes "lo + n \<le> length xs" and "length new = n"
  shows "length (replace_bytes xs lo n new) = length xs"
    and "i < length xs \<Longrightarrow> i \<notin> {lo..<lo + n} \<Longrightarrow> replace_bytes xs lo n new ! i = xs ! i"
  using slice_assign_overwrite [OF assms] by (simp_all add: slice_assign_replace)

lemma box_written_frame:
  assumes rows: "a1 + 16 \<le> length xs" "a2 + 16 \<le> length xs" "a3 + 16 \<le> length xs"
      "a4 + 16 \<le> length xs"
    and lines: "length r1 = 16" "length r2 = 16"
  shows "length (box_written xs a1 a2 a3 a4 r1 r2) = length xs"
    and "i < length xs \<Longrightarrow>
         i \<notin> {a1..<a1 + 16} \<union> {a2..<a2 + 16} \<union> {a3..<a3 + 16} \<union> {a4..<a4 + 16} \<Longrightarrow>
         box_written xs a1 a2 a3 a4 r1 r2 ! i = xs ! i"
proof -
  define top :: "byte list" where "top = [0xDA] @ replicate 14 0xC4 @ [0xBF]"
  define bottom :: "byte list" where "bottom = [0xC0] @ replicate 14 0xC4 @ [0xD9]"
  define g1 where "g1 = replace_bytes xs a1 16 top"
  define g2 where "g2 = replace_bytes g1 a2 16 r1"
  define g3 where "g3 = replace_bytes g2 a3 16 r2"
  define g4 where "g4 = replace_bytes g3 a4 16 bottom"
  have len: "length top = 16" "length bottom = 16"
    by (simp_all add: top_def bottom_def)
  have l1: "length g1 = length xs"
    unfolding g1_def using rows(1) len(1) by (rule replace_bytes_overwrite)
  have l2: "length g2 = length xs"
    unfolding g2_def using replace_bytes_overwrite(1) [of a2 16 g1 r1] rows(2) lines(1) l1
    by simp
  have l3: "length g3 = length xs"
    unfolding g3_def using replace_bytes_overwrite(1) [of a3 16 g2 r2] rows(3) lines(2) l2
    by simp
  have l4: "length g4 = length xs"
    unfolding g4_def using replace_bytes_overwrite(1) [of a4 16 g3 bottom] rows(4) len(2) l3
    by simp
  have eq: "box_written xs a1 a2 a3 a4 r1 r2 = g4"
    by (simp add: box_written_def g4_def g3_def g2_def g1_def top_def bottom_def)
  show "length (box_written xs a1 a2 a3 a4 r1 r2) = length xs"
    by (simp add: eq l4)
  show "box_written xs a1 a2 a3 a4 r1 r2 ! i = xs ! i"
    if i: "i < length xs"
      and out: "i \<notin> {a1..<a1 + 16} \<union> {a2..<a2 + 16} \<union> {a3..<a3 + 16} \<union> {a4..<a4 + 16}"
  proof -
    have "g1 ! i = xs ! i"
      unfolding g1_def using replace_bytes_overwrite(2) [of a1 16 xs top i] rows(1) len(1) i out
      by simp
    moreover have "g2 ! i = g1 ! i"
      unfolding g2_def
      using replace_bytes_overwrite(2) [of a2 16 g1 r1 i] rows(2) lines(1) l1 i out
      by simp
    moreover have "g3 ! i = g2 ! i"
      unfolding g3_def
      using replace_bytes_overwrite(2) [of a3 16 g2 r2 i] rows(3) lines(2) l2 i out
      by simp
    moreover have "g4 ! i = g3 ! i"
      unfolding g4_def
      using replace_bytes_overwrite(2) [of a4 16 g3 bottom i] rows(4) len(2) l3 i out
      by simp
    ultimately show ?thesis by (simp add: eq)
  qed
qed










section \<open>The steps of a successful run, in the order of the code\<close>

lemma patch_image_code_order:
  "patch_image ansi img blob = Inr g \<longleftrightarrow> (\<exists>s. code_order ansi img blob s \<and> up_fixed s = g)"
proof
  assume run: "patch_image ansi img blob = Inr g"
  then obtain g1 f g2 g3 g4 g5 g6 where
    1: "add_version_box ansi (length img) img = Inr g1" and
    2: "read_footer blob = Inr f" and
    3: "update_ds g1 blob (vars_size f) = Inr g2" and
    4: "call_reset_buffer g2 (addr_reset_buffer f) = Inr g3" and
    5: "call_put_scancode g3 (addr_put_scancode f) = Inr g4" and
    6: "call_get_scancode g4 (addr_get_scancode f) = Inr g5" and
    7: "call_on_round_start g5 (addr_on_round_start f) = Inr g6" and
    8: "fix_up_flag g6 = Inr g"
    by (auto simp: patch_image_def split: sum.splits)
  from 4 obtain l1 where l1: "find_pattern g2 pattern_init_scancode = Inr l1"
    "patch_call g2 l1 3 (addr_reset_buffer f) = Inr g3"
    by (auto simp: call_reset_buffer_def split: sum.splits)
  from 5 obtain l2 where l2: "find_pattern g3 pattern_write_scancode = Inr l2"
    "patch_call g3 l2 4 (addr_put_scancode f) = Inr g4"
    by (auto simp: call_put_scancode_def split: sum.splits)
  from 6 obtain ls where ls: "find_pattern_all g4 pattern_read_scancode = Inr ls"
    "patch_calls g4 ls (addr_get_scancode f) = Inr g5"
    by (auto simp: call_get_scancode_def split: sum.splits)
  from 7 obtain l4 where l4: "find_pattern g5 pattern_round_message = Inr l4"
    "patch_call g5 (l4 + 3) 3 (addr_on_round_start f) = Inr g6"
    by (auto simp: call_on_round_start_def split: sum.splits)
  from 8 obtain l5 where l5: "find_pattern g6 pattern_read_up_flag = Inr l5"
    "l5 + 7 < length g6" "g6 ! (l5 + 7) \<noteq> 0xFF" "g = g6[l5 + 7 := g6 ! (l5 + 7) + 1]"
    by (auto simp: fix_up_flag_def split: sum.splits if_splits)
  define s where "s = \<lparr>boxed = g1, ftr = f, ds_fixed = g2, loc_init = l1, init_patched = g3,
    loc_write = l2, write_patched = g4, locs_read = ls, reads_patched = g5, loc_round = l4,
    round_patched = g6, loc_up_flag = l5, up_fixed = g\<rparr>"
  have "code_order ansi img blob s"
    using 1 2 3 l1 l2 ls l4 l5 by (simp add: code_order_def s_def)
  moreover have "up_fixed s = g" by (simp add: s_def)
  ultimately show "\<exists>s. code_order ansi img blob s \<and> up_fixed s = g" by blast
next
  assume "\<exists>s. code_order ansi img blob s \<and> up_fixed s = g"
  then obtain s where s: "code_order ansi img blob s" and g: "up_fixed s = g" by blast
  from s have "fix_up_flag (round_patched s) = Inr (up_fixed s)"
    by (simp add: code_order_def fix_up_flag_def)
  with s g show "patch_image ansi img blob = Inr g"
    by (simp add: code_order_def patch_image_def call_reset_buffer_def call_put_scancode_def
        call_get_scancode_def call_on_round_start_def)
qed

lemma patch_game_success:
  "patch_game nasm ansi w = (None, w') \<longleftrightarrow>
     (\<exists>img loc blob s. input_file w = Some img \<and>
        find_pattern img pattern_key_handler = Inr loc \<and>
        nasm (length img) (loc + ADDR_COM_LOAD) = Blob blob \<and>
        code_order ansi img blob s \<and>
        w' = w\<lparr>output_file := Some (up_fixed s @ blob)\<rparr>)"
proof
  assume "patch_game nasm ansi w = (None, w')"
  from patch_game_cases [OF this] obtain img loc blob g where
    "input_file w = Some img" "find_pattern img pattern_key_handler = Inr loc"
    "nasm (length img) (loc + ADDR_COM_LOAD) = Blob blob" "patch_image ansi img blob = Inr g"
    "w' = w\<lparr>output_file := Some (g @ blob)\<rparr>"
    by auto
  then show "\<exists>img loc blob s. input_file w = Some img \<and>
        find_pattern img pattern_key_handler = Inr loc \<and>
        nasm (length img) (loc + ADDR_COM_LOAD) = Blob blob \<and>
        code_order ansi img blob s \<and>
        w' = w\<lparr>output_file := Some (up_fixed s @ blob)\<rparr>"
    by (auto simp: patch_image_code_order)
next
  assume "\<exists>img loc blob s. input_file w = Some img \<and>
        find_pattern img pattern_key_handler = Inr loc \<and>
        nasm (length img) (loc + ADDR_COM_LOAD) = Blob blob \<and>
        code_order ansi img blob s \<and>
        w' = w\<lparr>output_file := Some (up_fixed s @ blob)\<rparr>"
  then obtain img loc blob s where a: "input_file w = Some img"
    "find_pattern img pattern_key_handler = Inr loc"
    "nasm (length img) (loc + ADDR_COM_LOAD) = Blob blob" "code_order ansi img blob s"
    "w' = w\<lparr>output_file := Some (up_fixed s @ blob)\<rparr>"
    by blast
  from a(4) have "patch_image ansi img blob = Inr (up_fixed s)"
    by (auto simp: patch_image_code_order)
  with a show "patch_game nasm ansi w = (None, w')"
    by (simp add: patch_game_def)
qed



section \<open>The steps of a successful run, stated on the bytes\<close>



















section \<open>A concrete image of version 1.0\<close>

lemma western_rows:
  "western_codec (box_row ''Round 42 v1.0'') = Inr row_v10"
  "western_codec (box_row ''Round-42 v2.0'') = Inr row_v20"
  "western_codec (box_row ''Keyboard fix 1'') = Inr row_fix"
  by (simp_all add: western_codec_def box_row_def ljust_def row_v10_def row_v20_def row_fix_def)

lemma length_rows [simp]: "length row_v10 = 16" "length row_v20 = 16" "length row_fix = 16"
  by (simp_all add: row_v10_def row_v20_def row_fix_def)


lemmas example_fronts =
  example_front_def example_front_init_def example_front_write_def example_front_reads_def
  example_patched_front_def

lemma example_read_footer: "read_footer example_blob = Inr example_footer"
  by (simp add: read_footer_def read_le_word_def py_slice_def unpack_H_def example_blob_def
      example_footer_def)

lemma example_footer_fields:
  "vars_size example_footer = 0" "addr_reset_buffer example_footer = 0xED00"
  "addr_put_scancode example_footer = 0xED10" "addr_get_scancode example_footer = 0xED20"
  "addr_on_round_start example_footer = 0xED30"
  by (simp_all add: example_footer_def)

lemma example_key_handler:
  "find_pattern (example_front b @ R) pattern_key_handler = Inr 0"
  by (simp add: find_pattern_def bytes_find_def example_front_def pattern_defs)

lemma example_reset:
  "find_pattern (example_front b @ R) pattern_init_scancode = Inr 10"
  "patch_call (example_front b @ R) 10 3 0xED00 = Inr (example_front_init b @ R)"
  by (simp_all add: find_pattern_def bytes_find_def example_fronts pattern_defs
      patch_call_def pack_H_def slice_assign_def)

lemma example_put:
  "find_pattern (example_front_init b @ R) pattern_write_scancode = Inr 13"
  "patch_call (example_front_init b @ R) 13 4 0xED10 = Inr (example_front_write b @ R)"
  by (simp_all add: find_pattern_def bytes_find_def example_fronts pattern_defs
      patch_call_def pack_H_def slice_assign_def)

lemma example_get:
  assumes "0xA1 \<notin> set R"
  shows "find_pattern_all (example_front_write b @ R) pattern_read_scancode = Inr [7]"
    and "patch_calls (example_front_write b @ R) [7] 0xED20 = Inr (example_front_reads b @ R)"
proof -
  have "find_first [0xA1, 0x9E, 0x0F] R = None"
    using assms by (intro find_first_absent) simp_all
  then have "find_loop (example_front_write b @ R) pattern_read_scancode 0 [] = [7]"
    apply (subst find_loop.simps, simp add: bytes_find_def pattern_defs example_fronts)
    apply (subst find_loop.simps, simp add: bytes_find_def pattern_defs example_fronts)
    done
  then show "find_pattern_all (example_front_write b @ R) pattern_read_scancode = Inr [7]"
    by (simp add: find_pattern_all_def)
  show "patch_calls (example_front_write b @ R) [7] 0xED20 = Inr (example_front_reads b @ R)"
    by (simp add: patch_call_def pack_H_def slice_assign_def example_fronts)
qed

lemma example_round:
  "find_pattern (example_front_reads b @ R) pattern_round_message = Inr 17"
  "patch_call (example_front_reads b @ R) (17 + 3) 3 0xED30 = Inr (example_patched_front b @ R)"
  by (simp_all add: find_pattern_def bytes_find_def pattern_defs example_fronts
      patch_call_def pack_H_def slice_assign_def)

lemma example_up_flag:
  "find_pattern (example_patched_front b @ R) pattern_read_up_flag = Inr 23"
  "23 + 7 < length (example_patched_front b @ R)"
  "(example_patched_front b @ R) ! (23 + 7) = b"
  "(example_patched_front b @ R)[23 + 7 := b + 1] = example_patched_front (b + 1) @ R"
  by (simp_all add: find_pattern_def bytes_find_def pattern_defs example_fronts)

lemma length_example_front [simp]: "length (example_front b) = 32"
  by (simp add: example_front_def)

lemma length_example_patched_front [simp]: "length (example_patched_front b) = 32"
  by (simp add: example_patched_front_def)

lemma length_example_image: "length (example_image b) = 0xEC00"
  by (simp add: example_image_def)

lemma length_example_boxed_rest [simp]: "length example_boxed_rest = 0xEC00 - 32"
  unfolding example_boxed_rest_def by (subst box_written_frame(1)) simp_all

lemma length_example_rest [simp]: "length example_rest = 0xEC00 - 32"
  by (simp add: example_rest_def)

lemma example_box:
  "add_version_box western_codec (length (example_image b)) (example_image b) =
     Inr (example_front b @ example_boxed_rest)"
proof -
  have "box_written (example_front b @ replicate (0xEC00 - 32) 0)
      0xE5A2 0xE5F1 0xE640 0xE68F row_v10 row_fix =
    example_front b @ box_written (replicate (0xEC00 - 32) 0)
      (0xE5A2 - length (example_front b)) (0xE5F1 - length (example_front b))
      (0xE640 - length (example_front b)) (0xE68F - length (example_front b))
      row_v10 row_fix"
    by (rule box_written_append_right) simp_all
  then show ?thesis
    by (simp add: add_version_box_def example_image_def example_boxed_rest_def
        patch_version_box_rows [OF western_rows(1) western_rows(3)])
qed

lemma example_boxed_rest_ds:
  "example_boxed_rest ! (0x2BBF - 32) = 0" "example_boxed_rest ! (0x2BC0 - 32) = 0"
  unfolding example_boxed_rest_def
  by (subst box_written_frame(2); simp)+

lemma example_ds:
  "update_ds (example_front b @ example_boxed_rest) example_blob (vars_size example_footer) =
     Inr (example_front b @ example_rest)"
proof -
  let ?g = "example_front b @ example_boxed_rest"
  have inside: "DS_LOCATION + 2 \<le> length ?g"
    by (simp add: DS_LOCATION_def)
  have "?g ! DS_LOCATION = 0" "?g ! (DS_LOCATION + 1) = 0"
    using example_boxed_rest_ds by (simp_all add: DS_LOCATION_def nth_append)
  then have old: "read_le_word ?g (int DS_LOCATION) = Inr 0"
    by (simp add: read_le_word_inside [OF inside])
  have new: "new_ds_value (end_of_code ?g example_blob (vars_size example_footer)) 0 = 3793"
    by (simp add: new_ds_value_def overlap_def end_of_code_def ADDR_COM_LOAD_def
        example_blob_def example_footer_def)
  have "write_le_word ?g DS_LOCATION 3793 =
      Inr (?g[DS_LOCATION := word_of_int (3793 mod 256),
              DS_LOCATION + 1 := word_of_int (3793 div 256)])"
    using inside by (intro write_le_word_inside) simp_all
  also have "?g[DS_LOCATION := word_of_int (3793 mod 256),
                DS_LOCATION + 1 := word_of_int (3793 div 256)] =
      example_front b @ example_rest"
    by (simp add: DS_LOCATION_def list_update_append example_rest_def)
  finally show ?thesis
    by (simp add: update_ds_def old new)
qed


lemma set_example_rest:
  "set example_rest \<subseteq>
     {0x00, 0xD1, 0x0E, 0xDA, 0xC4, 0xBF, 0xC0, 0xD9} \<union> set row_v10 \<union> set row_fix"
proof -
  have "set example_rest \<subseteq> insert 0x0E (insert 0xD1 (set example_boxed_rest))"
    unfolding example_rest_def
    by (meson set_update_subset_insert subset_trans insert_mono)
  moreover have "set example_boxed_rest \<subseteq>
      set (replicate (0xEC00 - 32) (0 :: byte)) \<union> {0xDA, 0xC4, 0xBF, 0xC0, 0xD9} \<union>
      set row_v10 \<union> set row_fix"
    unfolding example_boxed_rest_def by (rule set_box_written)
  ultimately show ?thesis by auto
qed

lemma example_rest_no_read: "0xA1 \<notin> set example_rest"
  using set_example_rest by (auto simp: row_v10_def row_fix_def)

lemma example_code_order:
  assumes "b \<noteq> 0xFF"
  shows "code_order western_codec (example_image b) example_blob (example_stages b)"
proof -
  let ?s = "example_stages b"
  note get = example_get [OF example_rest_no_read, of b]
  note up = example_up_flag [of b example_rest]
  note sel = example_stages_def stages.simps example_footer_fields
  have 1: "add_version_box western_codec (length (example_image b)) (example_image b) = Inr (boxed ?s)"
    unfolding sel by (rule example_box)
  have 2: "read_footer example_blob = Inr (ftr ?s)"
    unfolding sel by (rule example_read_footer)
  have 3: "update_ds (boxed ?s) example_blob (vars_size (ftr ?s)) = Inr (ds_fixed ?s)"
    unfolding example_stages_def stages.simps by (rule example_ds)
  have 4: "find_pattern (ds_fixed ?s) pattern_init_scancode = Inr (loc_init ?s)"
    unfolding sel by (rule example_reset)
  have 5: "patch_call (ds_fixed ?s) (loc_init ?s) 3 (addr_reset_buffer (ftr ?s)) =
      Inr (init_patched ?s)"
    unfolding sel by (rule example_reset)
  have 6: "find_pattern (init_patched ?s) pattern_write_scancode = Inr (loc_write ?s)"
    unfolding sel by (rule example_put)
  have 7: "patch_call (init_patched ?s) (loc_write ?s) 4 (addr_put_scancode (ftr ?s)) =
      Inr (write_patched ?s)"
    unfolding sel by (rule example_put)
  have 8: "find_pattern_all (write_patched ?s) pattern_read_scancode = Inr (locs_read ?s)"
    unfolding sel by (rule get)
  have 9: "patch_calls (write_patched ?s) (locs_read ?s) (addr_get_scancode (ftr ?s)) =
      Inr (reads_patched ?s)"
    unfolding sel by (rule get)
  have 10: "find_pattern (reads_patched ?s) pattern_round_message = Inr (loc_round ?s)"
    unfolding sel by (rule example_round)
  have 11: "patch_call (reads_patched ?s) (loc_round ?s + 3) 3 (addr_on_round_start (ftr ?s)) =
      Inr (round_patched ?s)"
    unfolding sel by (rule example_round)
  have 12: "find_pattern (round_patched ?s) pattern_read_up_flag = Inr (loc_up_flag ?s)"
    unfolding sel by (rule up)
  have 13: "loc_up_flag ?s + 7 < length (round_patched ?s)"
    unfolding sel by (rule up)
  have b: "round_patched ?s ! (loc_up_flag ?s + 7) = b"
    unfolding sel by (rule up)
  have 14: "round_patched ?s ! (loc_up_flag ?s + 7) \<noteq> 0xFF"
    unfolding b by (rule assms)
  have 15: "up_fixed ?s =
      (round_patched ?s)[loc_up_flag ?s + 7 := round_patched ?s ! (loc_up_flag ?s + 7) + 1]"
    unfolding b unfolding sel by (rule up(4) [symmetric])
  from 1 2 3 4 5 6 7 8 9 10 11 12 13 14 15 show ?thesis
    unfolding code_order_def by (intro conjI)
qed


lemma example_builder_run:
  "example_builder (length (example_image b)) ADDR_COM_LOAD = Blob example_blob"
  by (simp add: example_builder_def ADDR_COM_LOAD_def length_example_image)

lemma example_run:
  assumes "b \<noteq> 0xFF"
  shows "patch_game example_builder western_codec \<lparr>input_file = Some (example_image b), output_file = out\<rparr> =
    (None, \<lparr>input_file = Some (example_image b),
            output_file = Some (example_patched_front (b + 1) @ example_rest @ example_blob)\<rparr>)"
proof -
  have "code_order western_codec (example_image b) example_blob (example_stages b)"
    using assms by (rule example_code_order)
  moreover have "find_pattern (example_image b) pattern_key_handler = Inr 0"
    unfolding example_image_def by (rule example_key_handler)
  moreover have "up_fixed (example_stages b) = example_patched_front (b + 1) @ example_rest"
    by (simp add: example_stages_def)
  ultimately show ?thesis
    unfolding patch_game_success
    by (intro exI [of _ "example_image b"], intro exI [of _ 0], intro exI [of _ example_blob],
        intro exI [of _ "example_stages b"]) (simp add: example_builder_run)
qed




section \<open>The same image under a UTF-8 code page\<close>


lemma length_rows_utf8 [simp]: "length row_v10_utf8 = 18" "length row_fix_utf8 = 18"
  by (simp_all add: row_v10_utf8_def row_fix_utf8_def)

lemma length_replace_bytes:
  "lo + n \<le> length xs \<Longrightarrow> length (replace_bytes xs lo n new) = length xs + length new - n"
  by (simp add: replace_bytes_def)



lemma length_tail_boxed_rest [simp]: "length tail_boxed_rest = 0xEC04 - 32"
  by (simp add: tail_boxed_rest_def box_written_def length_replace_bytes)

lemma length_tail_rest [simp]: "length tail_rest = 0xEC04 - 32"
  by (simp add: tail_rest_def)













section \<open>Properties of a whole run\<close>

lemma code_order_unique:
  assumes "code_order ansi img blob s" and "code_order ansi img blob t"
  shows "s = t"
proof -
  note a = assms [unfolded code_order_def]
  have 1: "boxed s = boxed t" using a by simp
  have 2: "ftr s = ftr t" using a by simp
  have 3: "ds_fixed s = ds_fixed t" using a 1 2 by simp
  have 4: "loc_init s = loc_init t" using a 3 by simp
  have 5: "init_patched s = init_patched t" using a 2 3 4 by simp
  have 6: "loc_write s = loc_write t" using a 5 by simp
  have 7: "write_patched s = write_patched t" using a 2 5 6 by simp
  have 8: "locs_read s = locs_read t" using a 7 by simp
  have 9: "reads_patched s = reads_patched t" using a 2 7 8 by simp
  have 10: "loc_round s = loc_round t" using a 9 by simp
  have 11: "round_patched s = round_patched t" using a 2 9 10 by simp
  have 12: "loc_up_flag s = loc_up_flag t" using a 11 by simp
  have 13: "up_fixed s = up_fixed t" using a 11 12 by simp
  from 1 2 3 4 5 6 7 8 9 10 11 12 13 show ?thesis
    by (intro stages.equality) simp_all
qed



lemma occurrences_find_loop:
  "{i. occurs_at data pattern i} = set (find_loop data pattern 0 [])"
  by (simp only: find_loop_eq append_Nil set_occurrences)




lemma unat_succ_byte:
  fixes x :: byte
  assumes "x \<noteq> 0xFF"
  shows "unat (x + 1) = unat x + 1"
proof -
  have "unat x < 256"
    using unsigned_less [of x, where ?'a = nat] by simp
  moreover have "unat x \<noteq> 255"
    using assms by (simp add: word_unat_eq_iff)
  ultimately show ?thesis
    by (simp add: unat_word_ariths)
qed

text \<open>
  Claim C9. After the four kinds of call sites, the run makes a fifth change: it looks for
  the first occurrence of the three bytes \<open>A0 66 0C\<close> in the image as patched so far
  and adds one to the byte seven after the start of that occurrence, provided that byte
  exists and is not \<open>0xFF\<close>; no other byte changes. The image a successful run
  writes is the result of this step on the image the call-site patches have left.
\<close>

theorem up_flag_fix:
  "pattern_read_up_flag = [0xA0, 0x66, 0x0C] \<and>
   (\<forall>g loc. occurs_at g pattern_read_up_flag loc \<and>
      (\<forall>j<loc. \<not> occurs_at g pattern_read_up_flag j) \<and>
      loc + 7 < length g \<and> g ! (loc + 7) \<noteq> 0xFF \<longrightarrow>
      fix_up_flag g = Inr (g[loc + 7 := g ! (loc + 7) + 1]) \<and>
      unat (g ! (loc + 7) + 1) = unat (g ! (loc + 7)) + 1) \<and>
   (\<forall>img blob out. patch_image ansi img blob = Inr out \<longrightarrow>
      (\<exists>s. code_order ansi img blob s \<and>
         occurs_at (round_patched s) pattern_read_up_flag (loc_up_flag s) \<and>
         (\<forall>j<loc_up_flag s. \<not> occurs_at (round_patched s) pattern_read_up_flag j) \<and>
         loc_up_flag s + 7 < length (round_patched s) \<and>
         round_patched s ! (loc_up_flag s + 7) \<noteq> 0xFF \<and>
         fix_up_flag (round_patched s) = Inr out \<and>
         out = (round_patched s)
                 [loc_up_flag s + 7 := round_patched s ! (loc_up_flag s + 7) + 1]))"
proof (intro conjI allI impI)
  show "pattern_read_up_flag = [0xA0, 0x66, 0x0C]"
    by (simp add: pattern_read_up_flag_def)
next
  fix g :: "byte list" and loc
  assume a: "occurs_at g pattern_read_up_flag loc \<and>
      (\<forall>j<loc. \<not> occurs_at g pattern_read_up_flag j) \<and>
      loc + 7 < length g \<and> g ! (loc + 7) \<noteq> 0xFF"
  then have "find_pattern g pattern_read_up_flag = Inr loc"
    by (simp add: find_pattern_Inr)
  with a show "fix_up_flag g = Inr (g[loc + 7 := g ! (loc + 7) + 1])"
    by (simp add: fix_up_flag_def)
  from a show "unat (g ! (loc + 7) + 1) = unat (g ! (loc + 7)) + 1"
    by (intro unat_succ_byte) simp
next
  fix img blob out
  assume "patch_image ansi img blob = Inr out"
  then obtain s where s: "code_order ansi img blob s" and out: "up_fixed s = out"
    unfolding patch_image_code_order by blast
  note c = s [unfolded code_order_def]
  have found: "find_pattern (round_patched s) pattern_read_up_flag = Inr (loc_up_flag s)"
    and inside: "loc_up_flag s + 7 < length (round_patched s)"
    and below: "round_patched s ! (loc_up_flag s + 7) \<noteq> 0xFF"
    and up: "up_fixed s =
      (round_patched s)[loc_up_flag s + 7 := round_patched s ! (loc_up_flag s + 7) + 1]"
    using c by simp_all
  have first: "occurs_at (round_patched s) pattern_read_up_flag (loc_up_flag s)"
    "\<forall>j<loc_up_flag s. \<not> occurs_at (round_patched s) pattern_read_up_flag j"
    using found by (simp_all add: find_pattern_Inr)
  have "fix_up_flag (round_patched s) = Inr out"
    using found inside below up out by (simp add: fix_up_flag_def)
  with s first inside below up out
  show "\<exists>s. code_order ansi img blob s \<and>
         occurs_at (round_patched s) pattern_read_up_flag (loc_up_flag s) \<and>
         (\<forall>j<loc_up_flag s. \<not> occurs_at (round_patched s) pattern_read_up_flag j) \<and>
         loc_up_flag s + 7 < length (round_patched s) \<and>
         round_patched s ! (loc_up_flag s + 7) \<noteq> 0xFF \<and>
         fix_up_flag (round_patched s) = Inr out \<and>
         out = (round_patched s)
                 [loc_up_flag s + 7 := round_patched s ! (loc_up_flag s + 7) + 1]"
    by (intro exI [of _ s]) simp
qed

theorem up_flag_fix_witness:
  "fix_up_flag (example_patched_front 5 @ example_rest) =
     Inr (example_patched_front 6 @ example_rest) \<and>
   (example_patched_front 5 @ example_rest) ! 30 = 5 \<and>
   (example_patched_front 6 @ example_rest) ! 30 = 6 \<and>
   patch_image western_codec (example_image 5) example_blob = Inr (example_patched_front 6 @ example_rest)"
proof -
  let ?g = "example_patched_front 5 @ example_rest"
  note up = example_up_flag [of 5 example_rest]
  have first: "occurs_at ?g pattern_read_up_flag 23"
    "\<forall>j<23. \<not> occurs_at ?g pattern_read_up_flag j"
    using up(1) by (simp_all add: find_pattern_Inr)
  have "23 + 7 < length ?g" "?g ! (23 + 7) \<noteq> 0xFF"
    using up(2,3) by simp_all
  with first up_flag_fix have "fix_up_flag ?g = Inr (?g[23 + 7 := ?g ! (23 + 7) + 1])"
    by blast
  then have step: "fix_up_flag ?g = Inr (example_patched_front 6 @ example_rest)"
    using up(4) unfolding up(3) by simp
  have "code_order western_codec (example_image 5) example_blob (example_stages 5)"
    by (rule example_code_order) simp
  then have "patch_image western_codec (example_image 5) example_blob = Inr (up_fixed (example_stages 5))"
    unfolding patch_image_code_order by blast
  then have run: "patch_image western_codec (example_image 5) example_blob =
      Inr (example_patched_front 6 @ example_rest)"
    by (simp add: example_stages_def)
  have "?g ! 30 = 5" "(example_patched_front 6 @ example_rest) ! 30 = 6"
    by (simp_all add: example_patched_front_def)
  with step run show ?thesis by simp
qed






section \<open>The order of the steps\<close>

lemmas boxsite_fronts =
  boxsite_front_def boxsite_front_write_def boxsite_front_reads_def boxsite_front_round_def
  boxsite_patched_front_def

lemma length_boxsite [simp]:
  "length boxsite_front = 32" "length boxsite_rest = 0xEC00 - 32" "length boxsite_image = 0xEC00"
  by (simp_all add: boxsite_front_def boxsite_rest_def boxsite_image_def)

lemma update_ds_zero:
  assumes "length F = 32" and "length R = 0xEC00 - 32"
    and "R ! (0x2BBF - 32) = 0" and "R ! (0x2BC0 - 32) = 0"
  shows "update_ds (F @ R) example_blob 0 = Inr (F @ R[0x2BBF - 32 := 0xD1, 0x2BC0 - 32 := 0x0E])"
proof -
  let ?g = "F @ R"
  have inside: "DS_LOCATION + 2 \<le> length ?g"
    using assms by (simp add: DS_LOCATION_def)
  have "?g ! DS_LOCATION = 0" "?g ! (DS_LOCATION + 1) = 0"
    using assms by (simp_all add: DS_LOCATION_def nth_append)
  then have old: "read_le_word ?g (int DS_LOCATION) = Inr 0"
    by (simp add: read_le_word_inside [OF inside])
  have new: "new_ds_value (end_of_code ?g example_blob 0) 0 = 3793"
    using assms by (simp add: new_ds_value_def overlap_def end_of_code_def ADDR_COM_LOAD_def
        example_blob_def)
  have "write_le_word ?g DS_LOCATION 3793 =
      Inr (?g[DS_LOCATION := word_of_int (3793 mod 256),
              DS_LOCATION + 1 := word_of_int (3793 div 256)])"
    using inside by (intro write_le_word_inside) simp_all
  also have "?g[DS_LOCATION := word_of_int (3793 mod 256),
                DS_LOCATION + 1 := word_of_int (3793 div 256)] =
      F @ R[0x2BBF - 32 := 0xD1, 0x2BC0 - 32 := 0x0E]"
    using assms by (simp add: DS_LOCATION_def list_update_append)
  finally show ?thesis
    by (simp add: update_ds_def old new)
qed

lemma boxsite_box:
  "add_version_box western_codec (length boxsite_image) boxsite_image =
     Inr (boxsite_front @ boxsite_boxed_rest)"
proof -
  have "box_written (boxsite_front @ boxsite_rest) 0xE5A2 0xE5F1 0xE640 0xE68F row_v10 row_fix =
    boxsite_front @ box_written boxsite_rest
      (0xE5A2 - length boxsite_front) (0xE5F1 - length boxsite_front)
      (0xE640 - length boxsite_front) (0xE68F - length boxsite_front) row_v10 row_fix"
    by (rule box_written_append_right) simp_all
  then show ?thesis
    by (simp add: add_version_box_def boxsite_image_def boxsite_boxed_rest_def
        patch_version_box_rows [OF western_rows(1) western_rows(3)])
qed

lemma set_boxsite_boxed_rest:
  "set boxsite_boxed_rest \<subseteq>
     {0x00, 0xDA, 0xC4, 0xBF, 0xC0, 0xD9} \<union> set row_v10 \<union> set row_fix"
proof -
  define top :: "byte list" where "top = [0xDA] @ replicate 14 0xC4 @ [0xBF]"
  define bottom :: "byte list" where "bottom = [0xC0] @ replicate 14 0xC4 @ [0xD9]"
  define g1 where "g1 = replace_bytes boxsite_rest (0xE5A2 - 32) 16 top"
  define g2 where "g2 = replace_bytes g1 (0xE5F1 - 32) 16 row_v10"
  define g3 where "g3 = replace_bytes g2 (0xE640 - 32) 16 row_fix"
  define g4 where "g4 = replace_bytes g3 (0xE68F - 32) 16 bottom"
  have "g1 = replicate (0xE5A2 - 32) 0 @ top @ replicate (0xEC00 - 0xE5A5 - 13) 0"
    by (simp add: g1_def boxsite_rest_def replace_bytes_def)
  then have 1: "set g1 \<subseteq> {0x00, 0xDA, 0xC4, 0xBF}"
    by (auto simp: top_def)
  have 2: "set g2 \<subseteq> set g1 \<union> set row_v10"
    unfolding g2_def by (rule set_replace_bytes)
  have 3: "set g3 \<subseteq> set g2 \<union> set row_fix"
    unfolding g3_def by (rule set_replace_bytes)
  have 4: "set g4 \<subseteq> set g3 \<union> set bottom"
    unfolding g4_def by (rule set_replace_bytes)
  have bottom: "set bottom \<subseteq> {0xC0, 0xC4, 0xD9}"
    by (auto simp: bottom_def)
  have "boxsite_boxed_rest = g4"
    by (simp add: boxsite_boxed_rest_def box_written_def g4_def g3_def g2_def
        g1_def top_def bottom_def)
  moreover have "set g4 \<subseteq>
      {0x00, 0xDA, 0xC4, 0xBF, 0xC0, 0xD9} \<union> set row_v10 \<union> set row_fix"
    using 1 2 3 4 bottom by blast
  ultimately show ?thesis by simp
qed

lemma find_first_append_absent:
  assumes "sub \<noteq> []" and "hd sub \<notin> set xs"
  shows "find_first sub (xs @ ys) = map_option (\<lambda>i. length xs + i) (find_first sub ys)"
  using assms
proof (induction xs)
  case Nil
  show ?case by (simp add: option.map_ident)
next
  case (Cons a xs)
  then have "\<not> prefix sub (a # xs @ ys)"
    by (cases sub) auto
  with Cons show ?case
    by (simp add: option.map_comp comp_def)
qed

lemma boxsite_key_handler:
  "find_pattern (boxsite_front @ R) pattern_key_handler = Inr 0"
  by (simp add: find_pattern_def bytes_find_def boxsite_front_def pattern_defs)

lemma length_boxsite_boxed_rest [simp]: "length boxsite_boxed_rest = 0xEC00 - 32"
  unfolding boxsite_boxed_rest_def by (subst box_written_frame(1)) simp_all

lemma boxsite_rest_ds:
  "boxsite_rest ! (0x2BBF - 32) = 0" "boxsite_rest ! (0x2BC0 - 32) = 0"
  by (simp_all add: boxsite_rest_def nth_append)

lemma boxsite_boxed_rest_ds:
  "boxsite_boxed_rest ! (0x2BBF - 32) = 0" "boxsite_boxed_rest ! (0x2BC0 - 32) = 0"
  unfolding boxsite_boxed_rest_def
  using boxsite_rest_ds by (subst box_written_frame(2); simp)+

lemma boxsite_code_order_ds:
  "update_ds (boxsite_front @ boxsite_boxed_rest) example_blob 0 =
     Inr (boxsite_front @ boxsite_boxed_rest[0x2BBF - 32 := 0xD1, 0x2BC0 - 32 := 0x0E])"
  using boxsite_boxed_rest_ds by (intro update_ds_zero) simp_all

lemma boxsite_code_order_no_init:
  "0xA3 \<notin> set (boxsite_front @ boxsite_boxed_rest[0x2BBF - 32 := 0xD1, 0x2BC0 - 32 := 0x0E])"
proof -
  have sub: "set (boxsite_boxed_rest[0x2BBF - 32 := 0xD1, 0x2BC0 - 32 := 0x0E]) \<subseteq>
      insert 0x0E (insert 0xD1 (set boxsite_boxed_rest))"
    by (meson set_update_subset_insert subset_trans insert_mono)
  have absent: "0xA3 \<notin> set boxsite_boxed_rest"
    using set_boxsite_boxed_rest by (auto simp: row_v10_def row_fix_def)
  have "0xA3 \<notin> set (boxsite_boxed_rest[0x2BBF - 32 := 0xD1, 0x2BC0 - 32 := 0x0E])"
  proof
    assume "0xA3 \<in> set (boxsite_boxed_rest[0x2BBF - 32 := 0xD1, 0x2BC0 - 32 := 0x0E])"
    with sub have "0xA3 \<in> insert 0x0E (insert 0xD1 (set boxsite_boxed_rest))"
      by (rule subsetD)
    with absent show False by simp
  qed
  moreover have "0xA3 \<notin> set boxsite_front"
    by (simp add: boxsite_front_def)
  ultimately show ?thesis by simp
qed

lemma boxsite_patch_image:
  "patch_image western_codec boxsite_image example_blob = Inl (pattern_not_found pattern_init_scancode)"
proof -
  let ?g = "boxsite_front @ boxsite_boxed_rest[0x2BBF - 32 := 0xD1, 0x2BC0 - 32 := 0x0E]"
  have "find_first pattern_init_scancode ?g = None"
    using boxsite_code_order_no_init
    by (intro find_first_absent) (simp_all add: pattern_defs)
  then have "find_pattern ?g pattern_init_scancode = Inl (pattern_not_found pattern_init_scancode)"
    by (simp add: find_pattern_def bytes_find_def)
  then have 4: "call_reset_buffer ?g 0xED00 = Inl (pattern_not_found pattern_init_scancode)"
    by (simp add: call_reset_buffer_def)
  show ?thesis
    unfolding patch_image_def boxsite_box example_read_footer sum.case example_footer_fields
      boxsite_code_order_ds 4 ..
qed

lemma boxsite_run:
  "patch_game example_builder western_codec \<lparr>input_file = Some boxsite_image, output_file = out\<rparr> =
     (Some (pattern_not_found pattern_init_scancode),
      \<lparr>input_file = Some boxsite_image, output_file = out\<rparr>)"
proof -
  have "find_pattern boxsite_image pattern_key_handler = Inr 0"
    unfolding boxsite_image_def by (rule boxsite_key_handler)
  moreover have "example_builder (length boxsite_image) ADDR_COM_LOAD = Blob example_blob"
    by (simp add: example_builder_def ADDR_COM_LOAD_def)
  ultimately show ?thesis
    by (simp add: patch_game_def boxsite_patch_image)
qed

lemma length_boxsite_zeros [simp]: "length boxsite_zeros = 0xE5A2 - 32"
  by (simp add: boxsite_zeros_def)

lemma set_boxsite_zeros: "set boxsite_zeros \<subseteq> {0x00, 0xD1, 0x0E}"
proof -
  have "set boxsite_zeros \<subseteq> insert 0x0E (insert 0xD1 (set (replicate (0xE5A2 - 32) 0)))"
    unfolding boxsite_zeros_def
    by (meson set_update_subset_insert subset_trans insert_mono)
  then show ?thesis by auto
qed

lemma boxsite_spec_order_ds:
  "update_ds boxsite_image example_blob 0 =
     Inr (boxsite_front @ boxsite_zeros @ [0xA3, 0x9E, 0x0F] @ replicate (0xEC00 - 0xE5A5) 0)"
proof -
  have "boxsite_rest[0x2BBF - 32 := 0xD1, 0x2BC0 - 32 := 0x0E] =
      boxsite_zeros @ [0xA3, 0x9E, 0x0F] @ replicate (0xEC00 - 0xE5A5) 0"
    by (simp add: boxsite_rest_def boxsite_zeros_def list_update_append)
  moreover have "update_ds (boxsite_front @ boxsite_rest) example_blob 0 =
      Inr (boxsite_front @ boxsite_rest[0x2BBF - 32 := 0xD1, 0x2BC0 - 32 := 0x0E])"
    using boxsite_rest_ds by (intro update_ds_zero) simp_all
  ultimately show ?thesis
    by (simp add: boxsite_image_def)
qed

lemma boxsite_find_init:
  assumes "0xA3 \<notin> set Z"
  shows "find_pattern (boxsite_front @ Z @ [0xA3, 0x9E, 0x0F] @ T) pattern_init_scancode =
    Inr (32 + length Z)"
proof -
  have "0xA3 \<notin> set (boxsite_front @ Z)"
    using assms by (simp add: boxsite_front_def)
  then have "find_first pattern_init_scancode ((boxsite_front @ Z) @ [0xA3, 0x9E, 0x0F] @ T) =
      map_option (\<lambda>i. length (boxsite_front @ Z) + i)
        (find_first pattern_init_scancode ([0xA3, 0x9E, 0x0F] @ T))"
    by (intro find_first_append_absent) (simp_all add: pattern_defs)
  also have "find_first pattern_init_scancode ([0xA3, 0x9E, 0x0F] @ T) = Some 0"
    by (simp add: pattern_defs)
  finally show ?thesis
    by (simp add: find_pattern_def bytes_find_def)
qed

lemma boxsite_patch_init:
  assumes "length Z = 0xE5A2 - 32"
  shows "patch_call (boxsite_front @ Z @ [0xA3, 0x9E, 0x0F] @ T) (32 + length Z) 3 0xED00 =
    Inr (boxsite_front @ Z @ [0xE8, 0x5B, 0x07] @ T)"
  using assms by (simp add: patch_call_def pack_H_def slice_assign_def)

lemma boxsite_reset:
  "call_reset_buffer
     (boxsite_front @ boxsite_zeros @ [0xA3, 0x9E, 0x0F] @ replicate (0xEC00 - 0xE5A5) 0) 0xED00 =
   Inr (boxsite_front @ boxsite_rest_patched)"
proof -
  have "0xA3 \<notin> set boxsite_zeros"
    using set_boxsite_zeros by auto
  note found = boxsite_find_init [OF this, of "replicate (0xEC00 - 0xE5A5) 0"]
  show ?thesis
    unfolding call_reset_buffer_def found sum.case boxsite_rest_patched_def
    by (rule boxsite_patch_init) simp
qed

lemma boxsite_put:
  "call_put_scancode (boxsite_front @ R) 0xED10 = Inr (boxsite_front_write @ R)"
proof -
  have "find_pattern (boxsite_front @ R) pattern_write_scancode = Inr 13"
    by (simp add: find_pattern_def bytes_find_def boxsite_fronts pattern_defs)
  moreover have "patch_call (boxsite_front @ R) 13 4 0xED10 = Inr (boxsite_front_write @ R)"
    by (simp add: boxsite_fronts patch_call_def pack_H_def slice_assign_def)
  ultimately show ?thesis
    by (simp add: call_put_scancode_def)
qed

lemma boxsite_get:
  assumes "0xA1 \<notin> set R"
  shows "call_get_scancode (boxsite_front_write @ R) 0xED20 = Inr (boxsite_front_reads @ R)"
proof -
  have "find_first [0xA1, 0x9E, 0x0F] R = None"
    using assms by (intro find_first_absent) simp_all
  then have "find_loop (boxsite_front_write @ R) pattern_read_scancode 0 [] = [7]"
    apply (subst find_loop.simps, simp add: bytes_find_def pattern_defs boxsite_fronts)
    apply (subst find_loop.simps, simp add: bytes_find_def pattern_defs boxsite_fronts)
    done
  then have "find_pattern_all (boxsite_front_write @ R) pattern_read_scancode = Inr [7]"
    by (simp add: find_pattern_all_def)
  moreover have "patch_calls (boxsite_front_write @ R) [7] 0xED20 =
      Inr (boxsite_front_reads @ R)"
    by (simp add: patch_call_def pack_H_def slice_assign_def boxsite_fronts)
  ultimately show ?thesis
    by (simp add: call_get_scancode_def)
qed

lemma boxsite_round:
  "call_on_round_start (boxsite_front_reads @ R) 0xED30 = Inr (boxsite_front_round @ R)"
proof -
  have "find_pattern (boxsite_front_reads @ R) pattern_round_message = Inr 17"
    by (simp add: find_pattern_def bytes_find_def boxsite_fronts pattern_defs)
  moreover have "patch_call (boxsite_front_reads @ R) (17 + 3) 3 0xED30 =
      Inr (boxsite_front_round @ R)"
    by (simp add: boxsite_fronts patch_call_def pack_H_def slice_assign_def)
  ultimately show ?thesis
    by (simp add: call_on_round_start_def)
qed

lemma boxsite_up_flag:
  "fix_up_flag (boxsite_front_round @ R) = Inr (boxsite_patched_front @ R)"
proof -
  have "find_pattern (boxsite_front_round @ R) pattern_read_up_flag = Inr 23"
    by (simp add: find_pattern_def bytes_find_def boxsite_fronts pattern_defs)
  then show ?thesis
    by (simp add: fix_up_flag_def) (simp add: boxsite_fronts)
qed

lemma boxsite_rest_patched_no_read: "0xA1 \<notin> set boxsite_rest_patched"
  using set_boxsite_zeros by (auto simp: boxsite_rest_patched_def)

lemma boxsite_spec_order_box:
  "add_version_box western_codec (length (boxsite_patched_front @ boxsite_rest_patched))
     (boxsite_patched_front @ boxsite_rest_patched) =
   Inr (boxsite_patched_front @
        box_written boxsite_rest_patched (0xE5A2 - 32) (0xE5F1 - 32) (0xE640 - 32)
          (0xE68F - 32) row_v10 row_fix)"
proof -
  have len: "length boxsite_patched_front = 32"
    by (simp add: boxsite_patched_front_def)
  have "box_written (boxsite_patched_front @ boxsite_rest_patched)
      0xE5A2 0xE5F1 0xE640 0xE68F row_v10 row_fix =
    boxsite_patched_front @ box_written boxsite_rest_patched
      (0xE5A2 - length boxsite_patched_front) (0xE5F1 - length boxsite_patched_front)
      (0xE640 - length boxsite_patched_front) (0xE68F - length boxsite_patched_front)
      row_v10 row_fix"
    by (rule box_written_append_right) (simp_all add: len)
  then show ?thesis
    by (simp add: add_version_box_def len boxsite_rest_patched_def
        patch_version_box_rows [OF western_rows(1) western_rows(3)])
qed

lemma boxsite_spec_order:
  "patch_image_spec_order western_codec boxsite_image example_blob =
     Inr (boxsite_patched_front @
          box_written boxsite_rest_patched (0xE5A2 - 32) (0xE5F1 - 32) (0xE640 - 32)
            (0xE68F - 32) row_v10 row_fix)"
proof -
  have size: "\<not> (length boxsite_image \<noteq> 0xEC00 \<and> length boxsite_image \<noteq> 0xF382)"
    by simp
  note get = boxsite_get [OF boxsite_rest_patched_no_read]
  show ?thesis
    unfolding patch_image_spec_order_def if_not_P [OF size] example_read_footer sum.case
      example_footer_fields boxsite_spec_order_ds boxsite_reset boxsite_put get boxsite_round
      boxsite_up_flag
    by (rule boxsite_spec_order_box)
qed

lemma boxsite_once:
  "find_loop boxsite_image pattern_init_scancode 0 [] = [0xE5A2]"
proof -
  have zeros: "0xA3 \<notin> set (replicate (0xE5A2 - 32) (0 :: byte))"
    by simp
  have first: "bytes_find boxsite_image pattern_init_scancode 0 = Some 0xE5A2"
    using boxsite_find_init [OF zeros, of "replicate (0xEC00 - 0xE5A5) 0"]
    by (simp add: find_pattern_def boxsite_image_def boxsite_rest_def split: option.splits)
  have "drop (0xE5A2 + 1) boxsite_image = [0x9E, 0x0F] @ replicate (0xEC00 - 0xE5A5) 0"
    by (simp add: boxsite_image_def boxsite_rest_def)
  then have "find_first pattern_init_scancode (drop (0xE5A2 + 1) boxsite_image) = None"
    by (simp add: pattern_defs find_first_zeros)
  then have last: "bytes_find boxsite_image pattern_init_scancode (0xE5A2 + 1) = None"
    by (simp add: bytes_find_def)
  show ?thesis
    by (subst find_loop.simps, simp only: first option.case,
        subst find_loop.simps, simp only: last option.case) simp
qed

lemma hex_init_scancode:
  "pattern_not_found pattern_init_scancode =
     ValueError ''Could not find pattern: [a3 9e 0f] in input file''"
  by (simp add: pattern_not_found_def pattern_defs hex_pattern_def hex_byte_def hex_digit_def)

text \<open>
  Claim C4 as stated fails: the version box is not written after the call sites have been
  patched. The image below has a known size and holds the initialising write exactly
  once, in the top row of the version box. The run reports that pattern as missing,
  because the box has been written before the search; in the order of the specification
  the site is found and patched and the patching returns an image.
\<close>

theorem version_box_before_sites:
  "length boxsite_image = 0xEC00 \<and>
   {i. occurs_at boxsite_image pattern_init_scancode i} = {0xE5A2} \<and>
   patch_game example_builder western_codec \<lparr>input_file = Some boxsite_image, output_file = None\<rparr> =
     (Some (ValueError ''Could not find pattern: [a3 9e 0f] in input file''),
      \<lparr>input_file = Some boxsite_image, output_file = None\<rparr>) \<and>
   patch_image western_codec boxsite_image example_blob = Inl (pattern_not_found pattern_init_scancode) \<and>
   (\<exists>g. patch_image_spec_order western_codec boxsite_image example_blob = Inr g) \<and>
   patch_image western_codec boxsite_image example_blob \<noteq> patch_image_spec_order western_codec boxsite_image example_blob"
  by (simp add: occurrences_find_loop boxsite_once boxsite_run boxsite_patch_image
      boxsite_spec_order hex_init_scancode [symmetric])

text \<open>
  Claim C4, as amended. The steps of a run follow the order of the code, each working on
  what the step before has left, and an error of one step ends the run whatever the later
  steps would do: the image is read; the key handler is located in it; the assembler is
  run with the size of the image and the address of the key handler, and its output is
  read; only then the size is recognised and the version box written (the codec is asked
  for the two caption rows after the size test); then the footer is parsed; then the
  segment value is fixed; then the four kinds of call sites are located and patched one
  after the other (initialising write, steady-state write, every read, branch after the
  jump); then the byte after the up-flag pattern is incremented; then the output is
  written. So the segment value is fixed before any call site is patched, and the
  version box is written before the footer is parsed, before the segment value is fixed
  and before any call site is searched.
\<close>

theorem run_order:
  "(input_file w = None \<longrightarrow> patch_game nasm ansi w = (Some OSError, w)) \<and>
   (\<forall>img e. input_file w = Some img \<and> find_pattern img pattern_key_handler = Inl e \<longrightarrow>
      patch_game nasm ansi w = (Some e, w)) \<and>
   (\<forall>img loc. input_file w = Some img \<and> find_pattern img pattern_key_handler = Inr loc \<and>
      nasm (length img) (loc + 0x100) = BuildFailed \<longrightarrow>
      patch_game nasm ansi w = (Some CalledProcessError, w)) \<and>
   (\<forall>img loc. input_file w = Some img \<and> find_pattern img pattern_key_handler = Inr loc \<and>
      nasm (length img) (loc + 0x100) = BlobUnreadable \<longrightarrow>
      patch_game nasm ansi w = (Some OSError, w)) \<and>
   (\<forall>img loc blob e. input_file w = Some img \<and>
      find_pattern img pattern_key_handler = Inr loc \<and>
      nasm (length img) (loc + 0x100) = Blob blob \<and> patch_image ansi img blob = Inl e \<longrightarrow>
      patch_game nasm ansi w = (Some e, w)) \<and>
   (\<forall>w'. patch_game nasm ansi w = (None, w') \<longleftrightarrow>
      (\<exists>img loc blob s. input_file w = Some img \<and>
         find_pattern img pattern_key_handler = Inr loc \<and>
         nasm (length img) (loc + 0x100) = Blob blob \<and>
         code_order ansi img blob s \<and>
         w' = w\<lparr>output_file := Some (up_fixed s @ blob)\<rparr>)) \<and>
   (\<forall>img. length img \<noteq> 0xEC00 \<and> length img \<noteq> 0xF382 \<longrightarrow>
      add_version_box ansi (length img) img = Inl (ValueError ''Unknown game version'')) \<and>
   (\<forall>img blob e. add_version_box ansi (length img) img = Inl e \<longrightarrow>
      patch_image ansi img blob = Inl e) \<and>
   (\<forall>img blob g1 e. add_version_box ansi (length img) img = Inr g1 \<and> read_footer blob = Inl e \<longrightarrow>
      patch_image ansi img blob = Inl e) \<and>
   (\<forall>img blob g1 f e. add_version_box ansi (length img) img = Inr g1 \<and> read_footer blob = Inr f \<and>
      update_ds g1 blob (vars_size f) = Inl e \<longrightarrow>
      patch_image ansi img blob = Inl e) \<and>
   (\<forall>img blob g1 f g2 e. add_version_box ansi (length img) img = Inr g1 \<and>
      read_footer blob = Inr f \<and> update_ds g1 blob (vars_size f) = Inr g2 \<and>
      call_reset_buffer g2 (addr_reset_buffer f) = Inl e \<longrightarrow>
      patch_image ansi img blob = Inl e) \<and>
   (\<forall>img blob g1 f g2 g3 e. add_version_box ansi (length img) img = Inr g1 \<and>
      read_footer blob = Inr f \<and> update_ds g1 blob (vars_size f) = Inr g2 \<and>
      call_reset_buffer g2 (addr_reset_buffer f) = Inr g3 \<and>
      call_put_scancode g3 (addr_put_scancode f) = Inl e \<longrightarrow>
      patch_image ansi img blob = Inl e) \<and>
   (\<forall>img blob g1 f g2 g3 g4 e. add_version_box ansi (length img) img = Inr g1 \<and>
      read_footer blob = Inr f \<and> update_ds g1 blob (vars_size f) = Inr g2 \<and>
      call_reset_buffer g2 (addr_reset_buffer f) = Inr g3 \<and>
      call_put_scancode g3 (addr_put_scancode f) = Inr g4 \<and>
      call_get_scancode g4 (addr_get_scancode f) = Inl e \<longrightarrow>
      patch_image ansi img blob = Inl e) \<and>
   (\<forall>img blob g1 f g2 g3 g4 g5 e. add_version_box ansi (length img) img = Inr g1 \<and>
      read_footer blob = Inr f \<and> update_ds g1 blob (vars_size f) = Inr g2 \<and>
      call_reset_buffer g2 (addr_reset_buffer f) = Inr g3 \<and>
      call_put_scancode g3 (addr_put_scancode f) = Inr g4 \<and>
      call_get_scancode g4 (addr_get_scancode f) = Inr g5 \<and>
      call_on_round_start g5 (addr_on_round_start f) = Inl e \<longrightarrow>
      patch_image ansi img blob = Inl e) \<and>
   (\<forall>img blob g1 f g2 g3 g4 g5 g6 e. add_version_box ansi (length img) img = Inr g1 \<and>
      read_footer blob = Inr f \<and> update_ds g1 blob (vars_size f) = Inr g2 \<and>
      call_reset_buffer g2 (addr_reset_buffer f) = Inr g3 \<and>
      call_put_scancode g3 (addr_put_scancode f) = Inr g4 \<and>
      call_get_scancode g4 (addr_get_scancode f) = Inr g5 \<and>
      call_on_round_start g5 (addr_on_round_start f) = Inr g6 \<and>
      fix_up_flag g6 = Inl e \<longrightarrow>
      patch_image ansi img blob = Inl e)"
proof (intro conjI allI impI)
  fix w'
  show "patch_game nasm ansi w = (None, w') \<longleftrightarrow>
      (\<exists>img loc blob s. input_file w = Some img \<and>
         find_pattern img pattern_key_handler = Inr loc \<and>
         nasm (length img) (loc + 0x100) = Blob blob \<and>
         code_order ansi img blob s \<and>
         w' = w\<lparr>output_file := Some (up_fixed s @ blob)\<rparr>)"
    by (simp only: patch_game_success ADDR_COM_LOAD_def)
qed (simp_all add: patch_image_def patch_game_def add_version_box_def ADDR_COM_LOAD_def)


theorem run_order_witness:
  "(\<exists>s. code_order western_codec (example_image 0) example_blob s \<and>
     patch_game example_builder western_codec
       \<lparr>input_file = Some (example_image 0), output_file = None\<rparr> =
       (None, \<lparr>input_file = Some (example_image 0),
               output_file = Some (up_fixed s @ example_blob)\<rparr>) \<and>
     boxed s = example_front 0 @ example_boxed_rest \<and>
     ds_fixed s = example_front 0 @ example_rest \<and>
     loc_init s = 10 \<and> loc_write s = 13 \<and> locs_read s = [7] \<and> loc_round s = 17 \<and>
     loc_up_flag s = 23 \<and>
     up_fixed s = example_patched_front 1 @ example_rest) \<and>
   patch_game (\<lambda>game_size key_handler. Blob []) western_codec
     \<lparr>input_file = Some [], output_file = None\<rparr> =
     (Some (ValueError ''Could not find pattern: [55 8b ec 55 e9 00 00 a1 9e 0f] in input file''),
      \<lparr>input_file = Some [], output_file = None\<rparr>) \<and>
   patch_game (\<lambda>game_size key_handler. BuildFailed) western_codec
     \<lparr>input_file = Some pattern_key_handler, output_file = None\<rparr> =
     (Some CalledProcessError, \<lparr>input_file = Some pattern_key_handler, output_file = None\<rparr>) \<and>
   patch_image missing_codec [] [] = Inl (ValueError ''Unknown game version'') \<and>
   patch_image missing_codec (example_image 0) [] = Inl LookupError \<and>
   patch_image western_codec (example_image 0) [] = Inl StructError"
proof -
  let ?w = "\<lparr>input_file = Some (example_image 0), output_file = None\<rparr>"
  let ?e = "\<lparr>input_file = Some ([] :: byte list), output_file = None\<rparr>"
  let ?k = "\<lparr>input_file = Some pattern_key_handler, output_file = None\<rparr>"
  let ?out = "example_patched_front (0 + 1) @ example_rest @ example_blob"
  have run: "patch_game example_builder western_codec ?w =
      (None, \<lparr>input_file = Some (example_image 0), output_file = Some ?out\<rparr>)"
    by (rule example_run) simp
  note order = run_order [where w = ?w and nasm = example_builder and ansi = western_codec]
  from order run obtain loc blob s where
    blob: "example_builder (length (example_image 0)) (loc + 0x100) = Blob blob"
    and s0: "code_order western_codec (example_image 0) blob s"
    by auto
  from blob have blob_eq: "blob = example_blob"
    by (simp add: example_builder_def split: if_splits)
  have "code_order western_codec (example_image 0) example_blob (example_stages 0)"
    by (rule example_code_order) simp
  moreover from s0 have "code_order western_codec (example_image 0) example_blob s"
    unfolding blob_eq .
  ultimately have s: "example_stages 0 = s"
    by (rule code_order_unique)
  have "code_order western_codec (example_image 0) example_blob (example_stages 0) \<and>
     patch_game example_builder western_codec ?w =
       (None, \<lparr>input_file = Some (example_image 0),
               output_file = Some (up_fixed (example_stages 0) @ example_blob)\<rparr>) \<and>
     boxed (example_stages 0) = example_front 0 @ example_boxed_rest \<and>
     ds_fixed (example_stages 0) = example_front 0 @ example_rest \<and>
     loc_init (example_stages 0) = 10 \<and> loc_write (example_stages 0) = 13 \<and>
     locs_read (example_stages 0) = [7] \<and> loc_round (example_stages 0) = 17 \<and>
     loc_up_flag (example_stages 0) = 23 \<and>
     up_fixed (example_stages 0) = example_patched_front 1 @ example_rest"
    using \<open>code_order western_codec (example_image 0) example_blob (example_stages 0)\<close> run
    by (simp add: example_stages_def)
  then have chain: "\<exists>s. code_order western_codec (example_image 0) example_blob s \<and>
     patch_game example_builder western_codec ?w =
       (None, \<lparr>input_file = Some (example_image 0),
               output_file = Some (up_fixed s @ example_blob)\<rparr>) \<and>
     boxed s = example_front 0 @ example_boxed_rest \<and>
     ds_fixed s = example_front 0 @ example_rest \<and>
     loc_init s = 10 \<and> loc_write s = 13 \<and> locs_read s = [7] \<and> loc_round s = 17 \<and>
     loc_up_flag s = 23 \<and>
     up_fixed s = example_patched_front 1 @ example_rest"
    unfolding s by (rule exI)
  have "find_pattern [] pattern_key_handler = Inl (pattern_not_found pattern_key_handler)"
    by (simp add: find_pattern_def bytes_find_def pattern_key_handler_def)
  with run_order [where w = ?e and nasm = "\<lambda>game_size key_handler. Blob []"
      and ansi = western_codec]
  have key_first: "patch_game (\<lambda>game_size key_handler. Blob []) western_codec ?e =
      (Some (pattern_not_found pattern_key_handler), ?e)"
    by simp
  have "find_pattern pattern_key_handler pattern_key_handler = Inr 0"
    by (simp add: find_pattern_Inr occurs_at_def)
  with run_order [where w = ?k and nasm = "\<lambda>game_size key_handler. BuildFailed"
      and ansi = western_codec]
  have builder_first: "patch_game (\<lambda>game_size key_handler. BuildFailed) western_codec ?k =
      (Some CalledProcessError, ?k)"
    by simp
  note m = run_order [where w = ?w and nasm = example_builder and ansi = missing_codec]
  have box_step: "\<forall>img blob e. add_version_box missing_codec (length img) img = Inl e \<longrightarrow>
      patch_image missing_codec img blob = Inl e"
    using m by (elim conjE)
  have "add_version_box missing_codec (length ([] :: byte list)) [] =
      Inl (ValueError ''Unknown game version'')"
    by (simp add: add_version_box_def)
  then have size_first: "patch_image missing_codec [] [] =
      Inl (ValueError ''Unknown game version'')"
    by (rule box_step [rule_format])
  have "add_version_box missing_codec (length (example_image 0)) (example_image 0) =
      Inl LookupError"
    by (simp add: add_version_box_def patch_version_box_def missing_codec_def
        length_example_image)
  then have codec_first: "patch_image missing_codec (example_image 0) [] = Inl LookupError"
    by (rule box_step [rule_format])
  have footer_step: "\<forall>img blob g1 e.
      add_version_box western_codec (length img) img = Inr g1 \<and> read_footer blob = Inl e \<longrightarrow>
      patch_image western_codec img blob = Inl e"
    using order by (elim conjE)
  have "read_footer [] = Inl StructError"
    by (simp add: read_footer_def read_le_word_def py_slice_def unpack_H_def)
  with example_box [of 0]
  have box_first: "patch_image western_codec (example_image 0) [] = Inl StructError"
    by (intro footer_step [rule_format]) simp
  from chain key_first builder_first size_first codec_first box_first show ?thesis
    by (simp add: hex_key_handler)
qed

end
